theory Spec2Isabelle
  imports Main "HOL-Library.AList" "HOL-Library.Sublist"
begin

section \<open>Paths, images and the file system\<close>

text \<open>
  The service of \<^verbatim>\<open>service/exegan_service.py\<close> works on \<^verbatim>\<open>pathlib\<close> paths, PIL images,
  the file system and one child process. A resolved absolute path is the list of its
  components below the root; \<^verbatim>\<open>str(path)\<close> joins them with slashes.
\<close>

type_synonym path = "string list"

definition str_path :: "path \<Rightarrow> string" where
  "str_path p = (if p = [] then ''/'' else concat (map (\<lambda>c. CHR ''/'' # c) p))"

definition parent :: "path \<Rightarrow> path" where
  "parent p = butlast p"

fun split_on :: "char \<Rightarrow> string \<Rightarrow> string list" where
  "split_on c [] = [[]]"
| "split_on c (x # xs) =
     (if x = c then [] # split_on c xs
      else (case split_on c xs of [] \<Rightarrow> [[x]] | w # ws \<Rightarrow> (x # w) # ws))"

definition parts :: "string \<Rightarrow> path" where
  "parts s = filter (\<lambda>w. w \<noteq> [] \<and> w \<noteq> ''.'') (split_on CHR ''/'' s)"

text \<open>\<^verbatim>\<open>base / s\<close>: an absolute right operand replaces the base.\<close>

definition joinpath :: "path \<Rightarrow> string \<Rightarrow> path" where
  "joinpath base s = (case s of [] \<Rightarrow> base
     | c # _ \<Rightarrow> if c = CHR ''/'' then parts s else base @ parts s)"

text \<open>\<^verbatim>\<open>str(n)\<close> of a Python integer.\<close>

fun str_nat :: "nat \<Rightarrow> string" where
  "str_nat n = (if n < 10 then [''0123456789'' ! n]
                else str_nat (n div 10) @ [''0123456789'' ! (n mod 10)])"

declare str_nat.simps [simp del]

definition str_int :: "int \<Rightarrow> string" where
  "str_int i = (if i < 0 then CHR ''-'' # str_nat (nat (- i)) else str_nat (nat i))"

text \<open>\<^verbatim>\<open>str\<close> of a pair of integers, as an f-string prints \<^verbatim>\<open>Image.size\<close>.\<close>

definition str_size :: "int \<times> int \<Rightarrow> string" where
  "str_size s = ''('' @ str_int (fst s) @ '', '' @ str_int (snd s) @ '')''"

text \<open>
  A PIL image is its size, its mode and its raster. Converting between modes changes the
  raster by a function of the two modes that the service does not look into; it is the
  parameter \<open>cvt\<close> of everything that converts.
\<close>

datatype mode = M1 | L | LA | P | PA | RGB | RGBA | RGBX | CMYK | YCbCr | LAB | HSV | I | I16 | F

record image =
  img_size :: "int \<times> int"
  img_mode :: mode
  img_data :: "nat list"

type_synonym cvt = "mode \<Rightarrow> mode \<Rightarrow> nat list \<Rightarrow> nat list"

definition convert :: "cvt \<Rightarrow> mode \<Rightarrow> image \<Rightarrow> image" where
  "convert cv m img =
     (if img_mode img = m then img
      else img\<lparr>img_mode := m, img_data := cv (img_mode img) m (img_data img)\<rparr>)"

text \<open>The modes the PNG writer accepts; it refuses the others with an \<^verbatim>\<open>OSError\<close>.\<close>

fun png_writable :: "mode \<Rightarrow> bool" where
  "png_writable M1 = True"
| "png_writable L = True"
| "png_writable LA = True"
| "png_writable P = True"
| "png_writable RGB = True"
| "png_writable RGBA = True"
| "png_writable I = True"
| "png_writable I16 = True"
| "png_writable _ = False"

text \<open>
  A file holds either bytes that PIL decodes to an image (the PNG writer is lossless, so
  a saved image decodes to itself) or bytes that it does not identify as an image.
  The file system is an association list from paths to nodes; the root always exists.
  Permissions and symbolic links are not modelled.
\<close>

datatype content = Encoded image | Raw "nat list"

datatype node = File content | Dir

type_synonym filesystem = "(path \<times> node) list"

datatype error =
    ValueError string
  | FileNotFoundError string
  | FileExistsError string
  | NotADirectoryError string
  | IsADirectoryError string
  | UnidentifiedImageError string
  | OSError string
  | IndexError
  | CalledProcessError int "string list"

definition lookup :: "filesystem \<Rightarrow> path \<Rightarrow> node option" where
  "lookup fs p = (if p = [] then Some Dir else map_of fs p)"

definition exists :: "filesystem \<Rightarrow> path \<Rightarrow> bool" where
  "exists fs p = (lookup fs p \<noteq> None)"

definition is_file :: "filesystem \<Rightarrow> path \<Rightarrow> bool" where
  "is_file fs p = (case lookup fs p of Some (File _) \<Rightarrow> True | _ \<Rightarrow> False)"

definition is_dir :: "filesystem \<Rightarrow> path \<Rightarrow> bool" where
  "is_dir fs p = (case lookup fs p of Some Dir \<Rightarrow> True | _ \<Rightarrow> False)"

definition iterdir :: "filesystem \<Rightarrow> path \<Rightarrow> error + path list" where
  "iterdir fs d = (case lookup fs d of
       None \<Rightarrow> Inl (FileNotFoundError (str_path d))
     | Some (File _) \<Rightarrow> Inl (NotADirectoryError (str_path d))
     | Some Dir \<Rightarrow> Inr (filter (\<lambda>p. p \<noteq> [] \<and> parent p = d) (map fst fs)))"

definition unlink :: "filesystem \<Rightarrow> path \<Rightarrow> error + filesystem" where
  "unlink fs p = (case lookup fs p of
       None \<Rightarrow> Inl (FileNotFoundError (str_path p))
     | Some Dir \<Rightarrow> Inl (IsADirectoryError (str_path p))
     | Some (File _) \<Rightarrow> Inr (AList.delete p fs))"

text \<open>\<^verbatim>\<open>os.mkdir(p)\<close>, one level.\<close>

definition os_mkdir :: "filesystem \<Rightarrow> path \<Rightarrow> error + filesystem" where
  "os_mkdir fs p = (case lookup fs p of
       Some _ \<Rightarrow> Inl (FileExistsError (str_path p))
     | None \<Rightarrow> (case lookup fs (parent p) of
           None \<Rightarrow> Inl (FileNotFoundError (str_path p))
         | Some (File _) \<Rightarrow> Inl (NotADirectoryError (str_path p))
         | Some Dir \<Rightarrow> Inr (AList.update p Dir fs)))"

text \<open>
  \<^verbatim>\<open>Path.mkdir(parents=True, exist_ok=True)\<close>: a missing parent is created first and the
  directory is then made without \<^verbatim>\<open>parents\<close>; any other refusal is swallowed exactly
  when the path is a directory already.
\<close>

function mkdir :: "filesystem \<Rightarrow> path \<Rightarrow> error + filesystem" where
  "mkdir fs p = (case os_mkdir fs p of
       Inr fs' \<Rightarrow> Inr fs'
     | Inl (FileNotFoundError msg) \<Rightarrow>
         if p = [] then Inl (FileNotFoundError msg)
         else (case mkdir fs (parent p) of
                 Inl e \<Rightarrow> Inl e
               | Inr fs1 \<Rightarrow> (case os_mkdir fs1 p of
                     Inr fs2 \<Rightarrow> Inr fs2
                   | Inl (FileNotFoundError msg') \<Rightarrow> Inl (FileNotFoundError msg')
                   | Inl e \<Rightarrow> if is_dir fs1 p then Inr fs1 else Inl e))
     | Inl e \<Rightarrow> if is_dir fs p then Inr fs else Inl e)"
  by pat_completeness auto
termination
  by (relation "measure (\<lambda>(fs, p). length p)") (auto simp: parent_def)

declare mkdir.simps [simp del]

text \<open>
  \<^verbatim>\<open>Image.save(path)\<close> for a \<^verbatim>\<open>.png\<close> path: the file is opened for writing (and so
  truncated) before the encoder looks at the mode; when the encoder refuses, a file that
  the call created is removed again and one that was there stays empty.
\<close>

definition save :: "image \<Rightarrow> path \<Rightarrow> filesystem \<Rightarrow> (error + unit) \<times> filesystem" where
  "save img p fs = (case lookup fs p of
       Some Dir \<Rightarrow> (Inl (IsADirectoryError (str_path p)), fs)
     | old \<Rightarrow> (case lookup fs (parent p) of
           None \<Rightarrow> (Inl (FileNotFoundError (str_path p)), fs)
         | Some (File _) \<Rightarrow> (Inl (NotADirectoryError (str_path p)), fs)
         | Some Dir \<Rightarrow>
             if png_writable (img_mode img) then (Inr (), AList.update p (File (Encoded img)) fs)
             else (Inl (OSError ''cannot write mode as PNG''),
                   if old = None then fs else AList.update p (File (Raw [])) fs)))"

text \<open>\<^verbatim>\<open>Image.open(path)\<close> followed by a conversion, which forces the decoding.\<close>

definition open_image :: "filesystem \<Rightarrow> path \<Rightarrow> error + image" where
  "open_image fs p = (case lookup fs p of
       None \<Rightarrow> Inl (FileNotFoundError (str_path p))
     | Some Dir \<Rightarrow> Inl (IsADirectoryError (str_path p))
     | Some (File (Raw _)) \<Rightarrow> Inl (UnidentifiedImageError (str_path p))
     | Some (File (Encoded img)) \<Rightarrow> Inr img)"

section \<open>The service\<close>

text \<open>
  The world a call works in: the file system and the log of the child processes it
  started, each with its argument list and working directory. The child process is a
  parameter: from its arguments, its working directory and the file system it gives its
  exit status and the file system it leaves. It is assumed to start and to exit: a
  missing interpreter and a child that hangs are not modelled.
\<close>

record world =
  files :: filesystem
  spawned :: "(string list \<times> path) list"

type_synonym proc = "string list \<Rightarrow> path \<Rightarrow> filesystem \<Rightarrow> int \<times> filesystem"

type_synonym 'a result = "(error + 'a) \<times> world"

record service =
  repo_root :: path
  psp_ckpt :: path
  exegan_ckpt :: path
  mask_dir :: path
  gt_dir :: path
  exemplar_dir :: path
  out_dir :: path
  sample_size :: int

definition io_dirs :: "service \<Rightarrow> path list" where
  "io_dirs self = [mask_dir self, gt_dir self, exemplar_dir self, out_dir self]"

text \<open>The fields that \<^verbatim>\<open>__init__\<close> sets from the resolved root.\<close>

definition mk_service :: "path \<Rightarrow> string \<Rightarrow> string \<Rightarrow> int \<Rightarrow> service" where
  "mk_service root psp_ckpt_rel exegan_ckpt_rel ssize =
     \<lparr>repo_root = root,
      psp_ckpt = joinpath root psp_ckpt_rel,
      exegan_ckpt = joinpath root exegan_ckpt_rel,
      mask_dir = joinpath (joinpath root ''images'') ''mask'',
      gt_dir = joinpath (joinpath root ''images'') ''target'',
      exemplar_dir = joinpath (joinpath root ''images'') ''exemplar'',
      out_dir = joinpath root ''recover_out'',
      sample_size = ssize\<rparr>"

fun mkdir_all :: "path list \<Rightarrow> filesystem \<Rightarrow> (error + unit) \<times> filesystem" where
  "mkdir_all [] fs = (Inr (), fs)"
| "mkdir_all (d # ds) fs = (case mkdir fs d of
       Inl e \<Rightarrow> (Inl e, fs)
     | Inr fs' \<Rightarrow> mkdir_all ds fs')"

text \<open>
  \<^verbatim>\<open>__init__\<close>. \<open>file\<close> is the resolved \<^verbatim>\<open>__file__\<close> of the module and
  \<open>root_arg\<close> the resolved \<^verbatim>\<open>repo_root\<close> argument, if one is given;
  \<^verbatim>\<open>parents[1]\<close> of a path with fewer than two components raises.
\<close>

definition root_of :: "path \<Rightarrow> path option \<Rightarrow> error + path" where
  "root_of file root_arg = (case root_arg of
       None \<Rightarrow> if length file < 2 then Inl IndexError else Inr (parent (parent file))
     | Some r \<Rightarrow> Inr r)"

definition init :: "path \<Rightarrow> path option \<Rightarrow> string \<Rightarrow> string \<Rightarrow> int \<Rightarrow> world \<Rightarrow> service result" where
  "init file root_arg psp_ckpt_rel exegan_ckpt_rel ssize w =
     (case root_of file root_arg of
        Inl e \<Rightarrow> (Inl e, w)
      | Inr root \<Rightarrow>
          (let self = mk_service root psp_ckpt_rel exegan_ckpt_rel ssize in
           case mkdir_all (io_dirs self) (files w) of
             (Inl e, fs') \<Rightarrow> (Inl e, w\<lparr>files := fs'\<rparr>)
           | (Inr _, fs') \<Rightarrow> (Inr self, w\<lparr>files := fs'\<rparr>)))"

subsection \<open>\<^verbatim>\<open>_clear_io_dirs\<close>\<close>

fun unlink_files :: "path list \<Rightarrow> filesystem \<Rightarrow> (error + unit) \<times> filesystem" where
  "unlink_files [] fs = (Inr (), fs)"
| "unlink_files (f # rest) fs =
     (if is_file fs f then
        (case unlink fs f of
           Inl e \<Rightarrow> (Inl e, fs)
         | Inr fs' \<Rightarrow> unlink_files rest fs')
      else unlink_files rest fs)"

fun clear_dirs :: "path list \<Rightarrow> filesystem \<Rightarrow> (error + unit) \<times> filesystem" where
  "clear_dirs [] fs = (Inr (), fs)"
| "clear_dirs (d # ds) fs = (case iterdir fs d of
       Inl e \<Rightarrow> (Inl e, fs)
     | Inr entries \<Rightarrow> (case unlink_files entries fs of
           (Inl e, fs') \<Rightarrow> (Inl e, fs')
         | (Inr _, fs') \<Rightarrow> clear_dirs ds fs'))"

definition clear_io_dirs :: "service \<Rightarrow> world \<Rightarrow> unit result" where
  "clear_io_dirs self w =
     (case clear_dirs (io_dirs self) (files w) of (r, fs') \<Rightarrow> (r, w\<lparr>files := fs'\<rparr>))"

subsection \<open>\<^verbatim>\<open>_save_triplet\<close>\<close>

definition size_error :: "string \<Rightarrow> string \<Rightarrow> int \<times> int \<Rightarrow> int \<times> int \<Rightarrow> error" where
  "size_error name what expected got =
     ValueError (name @ '' must be '' @ str_size expected @ '', got '' @ str_size got @ ''. ''
       @ ''Do '' @ what @ '' cropping/resizing on the client before calling EXE-GAN.'')"

definition png_name :: "int \<Rightarrow> string" where
  "png_name index = str_int index @ ''.png''"

definition save_triplet :: "service \<Rightarrow> image \<Rightarrow> image \<Rightarrow> image \<Rightarrow> int \<Rightarrow> world \<Rightarrow> unit result" where
  "save_triplet self test_img mask_img exemplar_img index w =
     (let expected = (sample_size self, sample_size self) in
      if img_size test_img \<noteq> expected then
        (Inl (size_error ''test_img'' ''face'' expected (img_size test_img)), w)
      else if img_size mask_img \<noteq> expected then
        (Inl (size_error ''mask_img'' ''mask'' expected (img_size mask_img)), w)
      else if img_size exemplar_img \<noteq> expected then
        (Inl (size_error ''exemplar_img'' ''exemplar'' expected (img_size exemplar_img)), w)
      else
        (case save test_img (joinpath (gt_dir self) (png_name index)) (files w) of
           (Inl e, fs1) \<Rightarrow> (Inl e, w\<lparr>files := fs1\<rparr>)
         | (Inr _, fs1) \<Rightarrow>
        (case save mask_img (joinpath (mask_dir self) (png_name index)) fs1 of
           (Inl e, fs2) \<Rightarrow> (Inl e, w\<lparr>files := fs2\<rparr>)
         | (Inr _, fs2) \<Rightarrow>
        (case save exemplar_img (joinpath (exemplar_dir self) (png_name index)) fs2 of
           (Inl e, fs3) \<Rightarrow> (Inl e, w\<lparr>files := fs3\<rparr>)
         | (Inr _, fs3) \<Rightarrow> (Inr (), w\<lparr>files := fs3\<rparr>)))))"

subsection \<open>\<^verbatim>\<open>_run_script\<close>\<close>

definition script_cmd :: "service \<Rightarrow> int \<Rightarrow> string list" where
  "script_cmd self sample_times =
     [''python'',
      ''guided_recovery.py'',
      ''--psp_checkpoint_path'',
      str_path (psp_ckpt self),
      ''--ckpt'',
      str_path (exegan_ckpt self),
      ''--masked_dir'',
      str_path (mask_dir self),
      ''--gt_dir'',
      str_path (gt_dir self),
      ''--exemplar_dir'',
      str_path (exemplar_dir self),
      ''--sample_times'',
      str_int sample_times,
      ''--eval_dir'',
      str_path (out_dir self)]"

text \<open>\<^verbatim>\<open>subprocess.run(cmd, cwd=..., check=True)\<close>: one child, waited for; a non-zero exit
  status raises.\<close>

definition run_script :: "proc \<Rightarrow> service \<Rightarrow> int \<Rightarrow> world \<Rightarrow> unit result" where
  "run_script pr self sample_times w =
     (let cmd = script_cmd self sample_times;
          cwd = repo_root self in
      case pr cmd cwd (files w) of (status, fs') \<Rightarrow>
        (let w' = \<lparr>files = fs', spawned = spawned w @ [(cmd, cwd)]\<rparr> in
         if status \<noteq> 0 then (Inl (CalledProcessError status cmd), w') else (Inr (), w')))"

subsection \<open>\<^verbatim>\<open>_load_outputs\<close>\<close>

definition out_name :: "int \<Rightarrow> int \<Rightarrow> string" where
  "out_name index j = str_int index @ ''_'' @ str_int j @ ''_inpaint.png''"

text \<open>\<^verbatim>\<open>range(n)\<close> is empty for \<open>n \<le> 0\<close>.\<close>

definition py_range :: "int \<Rightarrow> int list" where
  "py_range n = map int [0 ..< nat n]"

fun load_loop :: "cvt \<Rightarrow> service \<Rightarrow> filesystem \<Rightarrow> int \<Rightarrow> int list \<Rightarrow> image list \<Rightarrow> error + image list" where
  "load_loop cv self fs index [] imgs = Inr imgs"
| "load_loop cv self fs index (j # js) imgs =
     (let path = joinpath (out_dir self) (out_name index j) in
      if \<not> exists fs path then
        Inl (FileNotFoundError (''Missing EXE-GAN output: '' @ str_path path))
      else (case open_image fs path of
              Inl e \<Rightarrow> Inl e
            | Inr img \<Rightarrow> load_loop cv self fs index js (imgs @ [convert cv RGB img])))"

definition load_outputs :: "cvt \<Rightarrow> service \<Rightarrow> int \<Rightarrow> int \<Rightarrow> world \<Rightarrow> (image list) result" where
  "load_outputs cv self index sample_times w =
     (load_loop cv self (files w) index (py_range sample_times) [], w)"

subsection \<open>\<^verbatim>\<open>run\<close>\<close>

definition run :: "proc \<Rightarrow> cvt \<Rightarrow> service \<Rightarrow> image \<Rightarrow> image \<Rightarrow> image \<Rightarrow> int \<Rightarrow> world \<Rightarrow> (image list) result" where
  "run pr cv self test_img mask_img exemplar_img sample_times w =
     (case clear_io_dirs self w of
        (Inl e, w1) \<Rightarrow> (Inl e, w1)
      | (Inr _, w1) \<Rightarrow>
     (case save_triplet self test_img mask_img exemplar_img 0 w1 of
        (Inl e, w2) \<Rightarrow> (Inl e, w2)
      | (Inr _, w2) \<Rightarrow>
     (case run_script pr self sample_times w2 of
        (Inl e, w3) \<Rightarrow> (Inl e, w3)
      | (Inr _, w3) \<Rightarrow> load_outputs cv self 0 sample_times w3)))"

subsection \<open>The adapter of \<^verbatim>\<open>service/api.py\<close>\<close>

text \<open>An upload is the content of a file; \<^verbatim>\<open>Image.open(io.BytesIO(b))\<close> decodes it.\<close>

definition open_bytes :: "content \<Rightarrow> error + image" where
  "open_bytes b = (case b of Encoded img \<Rightarrow> Inr img | Raw _ \<Rightarrow> Inl (UnidentifiedImageError ''BytesIO''))"

definition decode_uploads :: "cvt \<Rightarrow> content \<Rightarrow> content \<Rightarrow> content \<Rightarrow> error + image \<times> image \<times> image" where
  "decode_uploads cv test_bytes mask_bytes ex_bytes =
     (case open_bytes test_bytes of Inl e \<Rightarrow> Inl e | Inr t \<Rightarrow>
     (case open_bytes mask_bytes of Inl e \<Rightarrow> Inl e | Inr m \<Rightarrow>
     (case open_bytes ex_bytes of Inl e \<Rightarrow> Inl e | Inr x \<Rightarrow>
        Inr (convert cv RGB t, convert cv L m, convert cv RGB x))))"

definition guided_recovery :: "proc \<Rightarrow> cvt \<Rightarrow> service \<Rightarrow> content \<Rightarrow> content \<Rightarrow> content \<Rightarrow> int \<Rightarrow> world \<Rightarrow> content result" where
  "guided_recovery pr cv self test_bytes mask_bytes ex_bytes sample_times w =
     (case decode_uploads cv test_bytes mask_bytes ex_bytes of
        Inl e \<Rightarrow> (Inl e, w)
      | Inr (test_img, mask_img, ex_img) \<Rightarrow>
          (case run pr cv self test_img mask_img ex_img sample_times w of
             (Inl e, w') \<Rightarrow> (Inl e, w')
           | (Inr outputs, w') \<Rightarrow>
               (case outputs of
                  [] \<Rightarrow> (Inl IndexError, w')
                | first # _ \<Rightarrow>
                    if png_writable (img_mode first) then (Inr (Encoded first), w')
                    else (Inl (OSError ''cannot write mode as PNG''), w'))))"

section \<open>Conditions on a call\<close>

text \<open>
  The staging area is ready when the four directories exist, as the constructor leaves
  them, and no directory sits where a staged file \<^verbatim>\<open>0.png\<close> is to be written. A triple is
  valid when every image has the configured size and a mode the PNG writer accepts.
\<close>

definition staging_ready :: "service \<Rightarrow> filesystem \<Rightarrow> bool" where
  "staging_ready self fs \<longleftrightarrow>
     (\<forall>d \<in> set (io_dirs self). is_dir fs d) \<and>
     (\<forall>d \<in> set [gt_dir self, mask_dir self, exemplar_dir self]. \<not> is_dir fs (d @ [''0.png'']))"

definition valid_triple :: "service \<Rightarrow> image \<Rightarrow> image \<Rightarrow> image \<Rightarrow> bool" where
  "valid_triple self t m e \<longleftrightarrow>
     (\<forall>x \<in> set [t, m, e].
        img_size x = (sample_size self, sample_size self) \<and> png_writable (img_mode x))"

section \<open>Example worlds\<close>

definition root0 :: path where
  "root0 = [''srv'', ''EXE-GAN'']"

definition svc0 :: service where
  "svc0 = mk_service root0 ''pre-train/psp_ffhq_encode.pt'' ''checkpoint/EXE_GAN_model.pt'' 256"

definition pic :: "mode \<Rightarrow> int \<Rightarrow> nat list \<Rightarrow> image" where
  "pic md n d = \<lparr>img_size = (n, n), img_mode = md, img_data = d\<rparr>"

text \<open>A conversion that triples a grey raster into three channels.\<close>

definition cv0 :: cvt where
  "cv0 a b d = (if b = RGB then concat (map (\<lambda>x. [x, x, x]) d) else d)"

text \<open>A machine on which only the repository root exists.\<close>

definition w_bare :: world where
  "w_bare = \<lparr>files = [([''srv''], Dir), (root0, Dir)], spawned = []\<rparr>"

text \<open>A constructed service: the four directories, empty.\<close>

definition fs_fresh :: filesystem where
  "fs_fresh =
     [([''srv''], Dir), (root0, Dir),
      (root0 @ [''images''], Dir),
      (root0 @ [''images'', ''mask''], Dir),
      (root0 @ [''images'', ''target''], Dir),
      (root0 @ [''images'', ''exemplar''], Dir),
      (root0 @ [''recover_out''], Dir)]"

definition w_fresh :: world where
  "w_fresh = \<lparr>files = fs_fresh, spawned = []\<rparr>"

text \<open>The same with what an earlier request left, and a subdirectory with a file in it.\<close>

definition w_stale :: world where
  "w_stale = \<lparr>files = fs_fresh @
     [(root0 @ [''images'', ''target'', ''0.png''], File (Encoded (pic RGB 256 [7]))),
      (root0 @ [''recover_out'', ''0_0_inpaint.png''], File (Encoded (pic RGB 256 [8]))),
      (root0 @ [''recover_out'', ''0_1_inpaint.png''], File (Encoded (pic RGB 256 [9]))),
      (root0 @ [''recover_out'', ''keep''], Dir),
      (root0 @ [''recover_out'', ''keep'', ''note.txt''], File (Raw [1, 2, 3]))],
     spawned = []\<rparr>"

text \<open>What clearing leaves of it, and what staging the triple below adds.\<close>

definition w_cleared :: world where
  "w_cleared = \<lparr>files = fs_fresh @
     [(root0 @ [''recover_out'', ''keep''], Dir),
      (root0 @ [''recover_out'', ''keep'', ''note.txt''], File (Raw [1, 2, 3]))],
     spawned = []\<rparr>"

definition t0 :: image where "t0 = pic RGB 256 [1]"

definition m0 :: image where "m0 = pic L 256 [2]"

definition e0 :: image where "e0 = pic RGB 256 [3]"

definition small :: image where "small = pic L 128 [2]"

definition w_staged :: world where
  "w_staged = \<lparr>files = files w_cleared @
     [(root0 @ [''images'', ''target'', ''0.png''], File (Encoded t0)),
      (root0 @ [''images'', ''mask'', ''0.png''], File (Encoded m0)),
      (root0 @ [''images'', ''exemplar'', ''0.png''], File (Encoded e0))],
     spawned = []\<rparr>"

text \<open>A child that writes \<open>k\<close> grey samples into \<^verbatim>\<open>recover_out\<close> below its working
  directory and exits with the given status.\<close>

definition pr_write :: "nat \<Rightarrow> int \<Rightarrow> proc" where
  "pr_write k status cmd cwd fs0 =
     (status,
      foldl (\<lambda>fs' j. AList.update (cwd @ [''recover_out'', out_name 0 (int j)])
                        (File (Encoded (pic L 256 [j]))) fs') fs0 [0 ..< k])"

text \<open>A child that leaves one output file, \<^verbatim>\<open>0_0_inpaint.png\<close>, that is no image, and exits
  with status 0.\<close>

definition pr_raw :: proc where
  "pr_raw cmd cwd fs0 =
     (0, AList.update (cwd @ [''recover_out'', out_name 0 0]) (File (Raw [])) fs0)"

section \<open>Properties of the file system and of the steps\<close>

subsection \<open>Clearing\<close>

lemma lookup_update:
  "lookup (AList.update k v fs) p = (if p = [] then Some Dir else if p = k then Some v else lookup fs p)"
  by (simp add: lookup_def update_conv')

lemma lookup_delete:
  "lookup (AList.delete k fs) p = (if p = [] then Some Dir else if p = k then None else lookup fs p)"
  by (simp add: lookup_def delete_conv')

lemma lookup_root [simp]: "lookup fs [] = Some Dir"
  by (simp add: lookup_def)

lemma is_file_root [simp]: "\<not> is_file fs []"
  by (simp add: is_file_def lookup_def)

lemma is_file_lookup: "is_file fs p \<longleftrightarrow> (\<exists>c. lookup fs p = Some (File c))"
  by (auto simp: is_file_def split: option.splits node.splits)

lemma is_dir_lookup: "is_dir fs p \<longleftrightarrow> lookup fs p = Some Dir"
  by (auto simp: is_dir_def split: option.splits node.splits)

lemma is_file_in_keys: "is_file fs p \<Longrightarrow> p \<in> fst ` set fs"
  by (auto simp: is_file_def lookup_def split: option.splits if_splits dest!: map_of_SomeD intro: rev_image_eqI)

lemma unlink_file: "is_file fs f \<Longrightarrow> unlink fs f = Inr (AList.delete f fs)"
  by (auto simp: unlink_def is_file_lookup)

lemma unlink_files_ok:
  "\<exists>fs'. unlink_files es fs = (Inr (), fs') \<and>
     (\<forall>p. lookup fs' p = (if p \<in> set es \<and> is_file fs p then None else lookup fs p))"
proof (induction es arbitrary: fs)
  case Nil
  then show ?case by simp
next
  case (Cons f rest)
  show ?case
  proof (cases "is_file fs f")
    case False
    with Cons.IH [of fs] show ?thesis by auto
  next
    case True
    then have ne: "f \<noteq> []" by auto
    from Cons.IH [of "AList.delete f fs"] obtain fs' where
      r: "unlink_files rest (AList.delete f fs) = (Inr (), fs')" and
      l: "\<forall>p. lookup fs' p = (if p \<in> set rest \<and> is_file (AList.delete f fs) p then None
                               else lookup (AList.delete f fs) p)"
      by blast
    have "unlink_files (f # rest) fs = (Inr (), fs')"
      using True r by (simp add: unlink_file)
    moreover have "lookup fs' p = (if p \<in> set (f # rest) \<and> is_file fs p then None else lookup fs p)" for p
      using l [rule_format, of p] True ne
      by (auto simp: is_file_lookup lookup_delete split: if_splits)
    ultimately show ?thesis by blast
  qed
qed

lemma iterdir_dir:
  "is_dir fs d \<Longrightarrow> iterdir fs d = Inr (filter (\<lambda>p. p \<noteq> [] \<and> parent p = d) (map fst fs))"
  by (simp add: iterdir_def is_dir_lookup)

lemma clear_dirs_ok:
  "\<forall>d \<in> set ds. is_dir fs d \<Longrightarrow>
   \<exists>fs'. clear_dirs ds fs = (Inr (), fs') \<and>
     (\<forall>p. lookup fs' p = (if p \<noteq> [] \<and> parent p \<in> set ds \<and> is_file fs p then None else lookup fs p))"
proof (induction ds arbitrary: fs)
  case Nil
  then show ?case by simp
next
  case (Cons d ds)
  let ?es = "filter (\<lambda>p. p \<noteq> [] \<and> parent p = d) (map fst fs)"
  from unlink_files_ok [of ?es fs] obtain fs1 where
    u: "unlink_files ?es fs = (Inr (), fs1)" and
    l1: "\<forall>p. lookup fs1 p = (if p \<in> set ?es \<and> is_file fs p then None else lookup fs p)"
    by blast
  have l1': "lookup fs1 p = (if p \<noteq> [] \<and> parent p = d \<and> is_file fs p then None else lookup fs p)" for p
    using l1 [rule_format, of p] is_file_in_keys [of fs p] by auto
  have dirs: "\<forall>d' \<in> set ds. is_dir fs1 d'"
    using Cons.prems by (auto simp: is_dir_lookup l1' is_file_lookup)
  from Cons.IH [OF dirs] obtain fs' where
    c: "clear_dirs ds fs1 = (Inr (), fs')" and
    l2: "\<forall>p. lookup fs' p = (if p \<noteq> [] \<and> parent p \<in> set ds \<and> is_file fs1 p then None else lookup fs1 p)"
    by blast
  have "clear_dirs (d # ds) fs = (Inr (), fs')"
    using Cons.prems u c by (simp add: iterdir_dir)
  moreover have "lookup fs' p = (if p \<noteq> [] \<and> parent p \<in> set (d # ds) \<and> is_file fs p then None else lookup fs p)" for p
    using l2 [rule_format, of p] l1' [of p] by (auto simp: is_file_lookup)
  ultimately show ?case by blast
qed

text \<open>Whatever its outcome, clearing only deletes.\<close>

lemma unlink_files_only_deletes:
  "unlink_files es fs = (r, fs') \<Longrightarrow> lookup fs' p = Some n \<Longrightarrow> lookup fs p = Some n"
  using unlink_files_ok [of es fs] by (auto split: if_splits)

lemma clear_dirs_only_deletes:
  "clear_dirs ds fs = (r, fs') \<Longrightarrow> lookup fs' p = Some n \<Longrightarrow> lookup fs p = Some n"
proof (induction ds arbitrary: fs)
  case Nil
  then show ?case by simp
next
  case (Cons d ds)
  show ?case
  proof (cases "iterdir fs d")
    case (Inl e)
    with Cons.prems show ?thesis by simp
  next
    case (Inr es)
    obtain fs1 where u: "unlink_files es fs = (Inr (), fs1)"
      using unlink_files_ok [of es fs] by blast
    with Cons.prems Inr have "clear_dirs ds fs1 = (r, fs')" by simp
    from Cons.IH [OF this Cons.prems(2)] have "lookup fs1 p = Some n" .
    with u show ?thesis by (rule unlink_files_only_deletes)
  qed
qed


subsection \<open>File names\<close>

lemma split_on_notin: "c \<notin> set s \<Longrightarrow> split_on c s = [s]"
  by (induction s) auto

lemma str_nat_digits: "set (str_nat n) \<subseteq> set ''0123456789''"
proof (induction n rule: str_nat.induct)
  case (1 n)
  have d: "''0123456789'' ! k \<in> set ''0123456789''" if "k < 10" for k
    using that nth_mem [of k "''0123456789''"] by simp
  show ?case
  proof (cases "n < 10")
    case True
    with d [of n] show ?thesis by (subst str_nat.simps) simp
  next
    case False
    with 1 d [of "n mod 10"] show ?thesis by (subst str_nat.simps) auto
  qed
qed

lemma slash_notin_str_nat: "CHR ''/'' \<notin> set (str_nat n)"
proof -
  have "CHR ''/'' \<notin> set ''0123456789''" by simp
  with str_nat_digits [of n] show ?thesis by blast
qed

lemma slash_notin_str_int: "CHR ''/'' \<notin> set (str_int i)"
  by (simp add: str_int_def slash_notin_str_nat)

lemma str_int_0: "str_int 0 = ''0''"
  by (simp add: str_int_def str_nat.simps)

lemma png_name_0: "png_name 0 = ''0.png''"
  by (simp add: png_name_def str_int_0)

lemma joinpath_png_0: "joinpath d (png_name 0) = d @ [''0.png'']"
  by (simp add: png_name_0 joinpath_def parts_def)

lemma out_name_0: "out_name 0 j = ''0_'' @ str_int j @ ''_inpaint.png''"
  by (simp add: out_name_def str_int_0)

lemma slash_notin_out_name: "CHR ''/'' \<notin> set (out_name 0 j)"
  by (simp add: out_name_0 slash_notin_str_int)

lemma joinpath_out_name: "joinpath d (out_name 0 j) = d @ [out_name 0 j]"
proof -
  have "parts (out_name 0 j) = [out_name 0 j]"
    using split_on_notin [OF slash_notin_out_name, of j]
    by (simp add: parts_def) (simp add: out_name_0)
  then show ?thesis by (simp add: joinpath_def out_name_0)
qed

lemma mk_service_sel:
  "repo_root (mk_service r a b s) = r"
  "mask_dir (mk_service r a b s) = r @ [''images'', ''mask'']"
  "gt_dir (mk_service r a b s) = r @ [''images'', ''target'']"
  "exemplar_dir (mk_service r a b s) = r @ [''images'', ''exemplar'']"
  "out_dir (mk_service r a b s) = r @ [''recover_out'']"
  "sample_size (mk_service r a b s) = s"
  "psp_ckpt (mk_service r a b s) = joinpath r a"
  "exegan_ckpt (mk_service r a b s) = joinpath r b"
  by (simp_all add: mk_service_def joinpath_def parts_def)

subsection \<open>Saving and staging\<close>

lemma save_ok:
  "is_dir fs (parent p) \<Longrightarrow> \<not> is_dir fs p \<Longrightarrow> png_writable (img_mode img) \<Longrightarrow>
   save img p fs = (Inr (), AList.update p (File (Encoded img)) fs)"
  by (auto simp: save_def is_dir_lookup split: option.splits node.splits)

lemma save_InrD:
  "save img p fs = (Inr u, fs') \<Longrightarrow> fs' = AList.update p (File (Encoded img)) fs \<and> p \<noteq> []"
  by (auto simp: save_def split: option.splits node.splits if_splits)

lemma save_triplet_InrD:
  assumes "save_triplet self t m e 0 w = (Inr u, w2)"
  shows "img_size t = (sample_size self, sample_size self)"
    and "img_size m = (sample_size self, sample_size self)"
    and "img_size e = (sample_size self, sample_size self)"
    and "spawned w2 = spawned w"
    and "files w2 = AList.update (exemplar_dir self @ [''0.png'']) (File (Encoded e))
           (AList.update (mask_dir self @ [''0.png'']) (File (Encoded m))
             (AList.update (gt_dir self @ [''0.png'']) (File (Encoded t)) (files w)))"
  using assms
  by (auto simp: save_triplet_def Let_def joinpath_png_0 split: if_splits prod.splits sum.splits
      dest!: save_InrD)

lemma save_triplet_spawned:
  "save_triplet self t m e i w = (r, w') \<Longrightarrow> spawned w' = spawned w"
  by (auto simp: save_triplet_def Let_def split: if_splits prod.splits sum.splits)

lemma clear_io_dirs_spawned:
  "clear_io_dirs self w = (r, w') \<Longrightarrow> spawned w' = spawned w"
  by (auto simp: clear_io_dirs_def split: prod.splits)

subsection \<open>Loading the outputs\<close>

lemma load_loop_all:
  "\<forall>j \<in> set js. lookup fs (out_dir self @ [out_name 0 j]) = Some (File (Encoded (g j))) \<Longrightarrow>
   load_loop cv self fs 0 js acc = Inr (acc @ map (\<lambda>j. convert cv RGB (g j)) js)"
  by (induction js arbitrary: acc)
     (simp_all add: joinpath_out_name exists_def open_image_def)

lemma load_loop_missing:
  "\<forall>i \<in> set pre. \<exists>img. lookup fs (out_dir self @ [out_name 0 i]) = Some (File (Encoded img)) \<Longrightarrow>
   lookup fs (out_dir self @ [out_name 0 j]) = None \<Longrightarrow>
   load_loop cv self fs 0 (pre @ j # post) acc =
     Inl (FileNotFoundError (''Missing EXE-GAN output: '' @ str_path (out_dir self @ [out_name 0 j])))"
  by (induction pre arbitrary: acc)
     (auto simp: joinpath_out_name exists_def open_image_def)

lemma load_loop_fails:
  "j \<in> set js \<Longrightarrow> lookup fs (out_dir self @ [out_name 0 j]) = None \<Longrightarrow>
   \<exists>err. load_loop cv self fs 0 js acc = Inl err"
proof (induction js arbitrary: acc)
  case Nil
  then show ?case by simp
next
  case (Cons a js)
  show ?case
  proof (cases "lookup fs (out_dir self @ [out_name 0 a])")
    case None
    then show ?thesis by (simp add: joinpath_out_name exists_def)
  next
    case (Some nd)
    with Cons.prems have "j \<in> set js" by auto
    from Cons.IH [OF this Cons.prems(2)] Some show ?thesis
      by (simp add: joinpath_out_name exists_def split: sum.splits)
  qed
qed

lemma upt_split: "a < b \<Longrightarrow> [0 ..< b] = [0 ..< a] @ a # [Suc a ..< b]"
proof -
  assume ab: "a < b"
  then have "[0 ..< b] = [0 ..< a] @ [a ..< b]"
    using upt_add_eq_append [of 0 a "b - a"] by simp
  with ab show ?thesis by (simp add: upt_conv_Cons)
qed

lemma py_range_split:
  "0 \<le> j \<Longrightarrow> j < n \<Longrightarrow>
   py_range n = map int [0 ..< nat j] @ j # map int [Suc (nat j) ..< nat n]"
  using upt_split [of "nat j" "nat n"] by (simp add: py_range_def)


subsection \<open>The steps of a run\<close>

lemma run_staged:
  "clear_io_dirs self w = (Inr u1, w1) \<Longrightarrow> save_triplet self t m e 0 w1 = (Inr u2, w2) \<Longrightarrow>
   run pr cv self t m e n w =
     (case run_script pr self n w2 of
        (Inl err, w3) \<Rightarrow> (Inl err, w3)
      | (Inr _, w3) \<Rightarrow> load_outputs cv self 0 n w3)"
  by (simp add: run_def)

lemma run_script_eq:
  "pr (script_cmd self n) (repo_root self) (files w) = (st, fs3) \<Longrightarrow>
   run_script pr self n w =
     (if st \<noteq> 0 then Inl (CalledProcessError st (script_cmd self n)) else Inr (),
      \<lparr>files = fs3, spawned = spawned w @ [(script_cmd self n, repo_root self)]\<rparr>)"
  by (simp add: run_script_def Let_def)

lemma staged_spawned:
  "clear_io_dirs self w = (r1, w1) \<Longrightarrow> save_triplet self t m e i w1 = (r2, w2) \<Longrightarrow>
   spawned w2 = spawned w"
  by (simp add: clear_io_dirs_spawned save_triplet_spawned)

section \<open>A child process that fails\<close>

text \<open>
  C3: when the child process exits with a non-zero status, \<^verbatim>\<open>run\<close> fails with the
  \<^verbatim>\<open>CalledProcessError\<close> of that status; exactly one process has been started (there is
  no second attempt), and no image is returned, whatever files the output directory
  holds. The call reaches the child exactly when clearing and staging have succeeded.
\<close>

theorem run_fails_on_nonzero_exit:
  assumes "clear_io_dirs self w = (Inr u1, w1)"
    and "save_triplet self t m e 0 w1 = (Inr u2, w2)"
    and "pr (script_cmd self n) (repo_root self) (files w2) = (st, fs3)"
    and "st \<noteq> 0"
  shows "run pr cv self t m e n w =
     (Inl (CalledProcessError st (script_cmd self n)),
      \<lparr>files = fs3, spawned = spawned w @ [(script_cmd self n, repo_root self)]\<rparr>)"
  using assms staged_spawned [OF assms(1,2)]
  by (simp add: run_staged run_script_eq)

theorem run_fails_on_nonzero_exit_witness:
  "clear_io_dirs svc0 w_stale = (Inr (), w_cleared) \<and>
   save_triplet svc0 t0 m0 e0 0 w_cleared = (Inr (), w_staged) \<and>
   fst (pr_write 1 2 (script_cmd svc0 1) (repo_root svc0) (files w_staged)) = 2 \<and>
   is_file (snd (pr_write 1 2 (script_cmd svc0 1) (repo_root svc0) (files w_staged)))
     (root0 @ [''recover_out'', ''0_0_inpaint.png'']) \<and>
   fst (run (pr_write 1 2) cv0 svc0 t0 m0 e0 1 w_stale)
     = Inl (CalledProcessError 2 (script_cmd svc0 1)) \<and>
   spawned (snd (run (pr_write 1 2) cv0 svc0 t0 m0 e0 1 w_stale)) = [(script_cmd svc0 1, root0)]"
proof -
  have h1: "clear_io_dirs svc0 w_stale = (Inr (), w_cleared)" by code_simp
  have h2: "save_triplet svc0 t0 m0 e0 0 w_cleared = (Inr (), w_staged)" by code_simp
  have h3: "pr_write 1 2 (script_cmd svc0 1) (repo_root svc0) (files w_staged)
      = (2, snd (pr_write 1 2 (script_cmd svc0 1) (repo_root svc0) (files w_staged)))"
    by (simp add: pr_write_def)
  have h4: "(2::int) \<noteq> 0" by simp
  have g: "fst (pr_write 1 2 (script_cmd svc0 1) (repo_root svc0) (files w_staged)) = 2"
    by (simp add: pr_write_def)
  have r: "repo_root svc0 = root0" by (simp add: svc0_def mk_service_def)
  have f: "is_file (snd (pr_write 1 2 (script_cmd svc0 1) (repo_root svc0) (files w_staged)))
     (root0 @ [''recover_out'', ''0_0_inpaint.png''])" by code_simp
  have s: "spawned w_stale = []" by (simp add: w_stale_def)
  show ?thesis
    using run_fails_on_nonzero_exit [where pr = "pr_write 1 2" and cv = cv0, OF h1 h2 h3 h4]
      h1 h2 g f r s by simp
qed

section \<open>Collecting the outputs\<close>

lemma img_mode_convert: "img_mode (convert cv md img) = md"
  by (simp add: convert_def)

lemma load_outputs_eq:
  "load_outputs cv self 0 n w = (load_loop cv self (files w) 0 (py_range n) [], w)"
  by (simp add: load_outputs_def)

lemma run_exit0:
  assumes "clear_io_dirs self w = (Inr u1, w1)"
    and "save_triplet self t m e 0 w1 = (Inr u2, w2)"
    and "pr (script_cmd self n) (repo_root self) (files w2) = (0, fs3)"
  shows "run pr cv self t m e n w =
     (load_loop cv self fs3 0 (py_range n) [],
      \<lparr>files = fs3, spawned = spawned w @ [(script_cmd self n, repo_root self)]\<rparr>)"
  using assms staged_spawned [OF assms(1,2)]
  by (simp add: run_staged run_script_eq load_outputs_eq)

text \<open>
  C1 (amended): for a call with \<open>sample_times = n \<ge> 1\<close> whose clearing and staging
  succeed (as they do for a valid triple on a ready staging area), whose child process
  exits with status 0 and leaves, for every \<open>j\<close> in \<open>0..n-1\<close>, a file
  \<^verbatim>\<open>0_j_inpaint.png\<close> in the output directory that decodes as an image, \<^verbatim>\<open>run\<close> returns
  exactly \<open>n\<close> images: the decoded files in ascending sample index, each converted to
  RGB. The list is a function of \<open>n\<close> and of the files alone. That the files exist is
  not enough: the loop opens each file it finds, and a file that is no image raises there.
\<close>

theorem run_returns_samples_in_order:
  assumes "clear_io_dirs self w = (Inr u1, w1)"
    and "save_triplet self t m e 0 w1 = (Inr u2, w2)"
    and "pr (script_cmd self n) (repo_root self) (files w2) = (0, fs3)"
    and "1 \<le> n"
    and "\<forall>j. 0 \<le> j \<and> j < n \<longrightarrow>
           lookup fs3 (out_dir self @ [out_name 0 j]) = Some (File (Encoded (g j)))"
  shows "\<exists>imgs. run pr cv self t m e n w =
           (Inr imgs, \<lparr>files = fs3, spawned = spawned w @ [(script_cmd self n, repo_root self)]\<rparr>)
         \<and> imgs = map (\<lambda>k. convert cv RGB (g (int k))) [0 ..< nat n]
         \<and> int (length imgs) = n
         \<and> (\<forall>x \<in> set imgs. img_mode x = RGB)"
proof -
  have "\<forall>j \<in> set (py_range n). lookup fs3 (out_dir self @ [out_name 0 j]) = Some (File (Encoded (g j)))"
    using assms(5) by (auto simp: py_range_def)
  from load_loop_all [OF this, of cv "[]"]
  have "load_loop cv self fs3 0 (py_range n) [] = Inr (map (\<lambda>k. convert cv RGB (g (int k))) [0 ..< nat n])"
    by (simp add: py_range_def comp_def)
  with run_exit0 [where pr = pr and cv = cv, OF assms(1-3)] assms(4) show ?thesis
    by (simp add: img_mode_convert)
qed

text \<open>
  C4 (amended): when the child process exits with status 0 and the output file of some
  sample index \<open>j\<close> below \<open>sample_times\<close> is absent, \<^verbatim>\<open>run\<close> fails, so no partial list
  is returned; when the files of all indices below \<open>j\<close> decode as images, so that \<open>j\<close>
  is the first missing index and the loop reaches it, the error is the
  \<^verbatim>\<open>FileNotFoundError\<close> that names \<^verbatim>\<open>0_j_inpaint.png\<close> in the output directory. A file of
  a lower index that is no image raises its own error first.
\<close>

theorem run_names_first_missing_output:
  assumes "clear_io_dirs self w = (Inr u1, w1)"
    and "save_triplet self t m e 0 w1 = (Inr u2, w2)"
    and "pr (script_cmd self n) (repo_root self) (files w2) = (0, fs3)"
    and "0 \<le> j" and "j < n"
    and "lookup fs3 (out_dir self @ [out_name 0 j]) = None"
  shows "(\<exists>err. fst (run pr cv self t m e n w) = Inl err) \<and>
         ((\<forall>i. 0 \<le> i \<and> i < j \<longrightarrow>
              (\<exists>img. lookup fs3 (out_dir self @ [out_name 0 i]) = Some (File (Encoded img)))) \<longrightarrow>
          fst (run pr cv self t m e n w) =
            Inl (FileNotFoundError (''Missing EXE-GAN output: '' @
                   str_path (out_dir self @ [''0_'' @ str_int j @ ''_inpaint.png'']))))"
proof -
  have r: "fst (run pr cv self t m e n w) = load_loop cv self fs3 0 (py_range n) []"
    using run_exit0 [where pr = pr and cv = cv, OF assms(1-3)] by simp
  have "j \<in> set (py_range n)"
    using assms(4,5) by (simp add: py_range_split)
  from load_loop_fails [OF this assms(6), of cv "[]"] r
  have a: "\<exists>err. fst (run pr cv self t m e n w) = Inl err" by simp
  have b: "fst (run pr cv self t m e n w) =
            Inl (FileNotFoundError (''Missing EXE-GAN output: '' @
                   str_path (out_dir self @ [''0_'' @ str_int j @ ''_inpaint.png''])))"
    if ok: "\<forall>i. 0 \<le> i \<and> i < j \<longrightarrow>
              (\<exists>img. lookup fs3 (out_dir self @ [out_name 0 i]) = Some (File (Encoded img)))"
  proof -
    have "\<forall>i \<in> set (map int [0 ..< nat j]).
            \<exists>img. lookup fs3 (out_dir self @ [out_name 0 i]) = Some (File (Encoded img))"
      using ok assms(4) by auto
    from load_loop_missing [OF this assms(6), of cv _ "[]"] r
    show ?thesis
      by (simp add: py_range_split [OF assms(4,5)] out_name_0)
  qed
  from a b show ?thesis by blast
qed

theorem run_returns_samples_in_order_witness:
  "clear_io_dirs svc0 w_stale = (Inr (), w_cleared) \<and>
   save_triplet svc0 t0 m0 e0 0 w_cleared = (Inr (), w_staged) \<and>
   fst (pr_write 2 0 (script_cmd svc0 2) (repo_root svc0) (files w_staged)) = 0 \<and>
   (\<exists>imgs. fst (run (pr_write 2 0) cv0 svc0 t0 m0 e0 2 w_stale) = Inr imgs \<and>
      imgs = [pic RGB 256 [0, 0, 0], pic RGB 256 [1, 1, 1]])"
proof -
  let ?fs3 = "snd (pr_write 2 0 (script_cmd svc0 2) (repo_root svc0) (files w_staged))"
  have h1: "clear_io_dirs svc0 w_stale = (Inr (), w_cleared)" by code_simp
  have h2: "save_triplet svc0 t0 m0 e0 0 w_cleared = (Inr (), w_staged)" by code_simp
  have h3: "pr_write 2 0 (script_cmd svc0 2) (repo_root svc0) (files w_staged) = (0, ?fs3)"
    by (simp add: pr_write_def)
  have g: "fst (pr_write 2 0 (script_cmd svc0 2) (repo_root svc0) (files w_staged)) = 0"
    by (simp add: pr_write_def)
  have h4: "(1::int) \<le> 2" by simp
  have o0: "lookup ?fs3 (out_dir svc0 @ [out_name 0 0]) = Some (File (Encoded (pic L 256 [nat 0])))"
    by code_simp
  have o1: "lookup ?fs3 (out_dir svc0 @ [out_name 0 1]) = Some (File (Encoded (pic L 256 [nat 1])))"
    by code_simp
  have h5: "\<forall>j. 0 \<le> j \<and> j < 2 \<longrightarrow>
      lookup ?fs3 (out_dir svc0 @ [out_name 0 j]) = Some (File (Encoded (pic L 256 [nat j])))"
  proof (intro allI impI)
    fix j :: int assume "0 \<le> j \<and> j < 2"
    then have "j = 0 \<or> j = 1" by arith
    with o0 o1 show "lookup ?fs3 (out_dir svc0 @ [out_name 0 j]) = Some (File (Encoded (pic L 256 [nat j])))"
      by auto
  qed
  have c: "map (\<lambda>k. convert cv0 RGB (pic L 256 [nat (int k)])) [0 ..< nat 2]
      = [pic RGB 256 [0, 0, 0], pic RGB 256 [1, 1, 1]]"
    by code_simp
  show ?thesis
    using run_returns_samples_in_order [where pr = "pr_write 2 0" and cv = cv0, OF h1 h2 h3 h4 h5]
      h1 h2 g c by simp
qed

theorem run_names_first_missing_output_witness:
  "clear_io_dirs svc0 w_stale = (Inr (), w_cleared) \<and>
   save_triplet svc0 t0 m0 e0 0 w_cleared = (Inr (), w_staged) \<and>
   fst (pr_write 2 0 (script_cmd svc0 3) (repo_root svc0) (files w_staged)) = 0 \<and>
   fst (run (pr_write 2 0) cv0 svc0 t0 m0 e0 3 w_stale) =
     Inl (FileNotFoundError ''Missing EXE-GAN output: /srv/EXE-GAN/recover_out/0_2_inpaint.png'')"
proof -
  let ?fs3 = "snd (pr_write 2 0 (script_cmd svc0 3) (repo_root svc0) (files w_staged))"
  have h1: "clear_io_dirs svc0 w_stale = (Inr (), w_cleared)" by code_simp
  have h2: "save_triplet svc0 t0 m0 e0 0 w_cleared = (Inr (), w_staged)" by code_simp
  have h3: "pr_write 2 0 (script_cmd svc0 3) (repo_root svc0) (files w_staged) = (0, ?fs3)"
    by (simp add: pr_write_def)
  have g: "fst (pr_write 2 0 (script_cmd svc0 3) (repo_root svc0) (files w_staged)) = 0"
    by (simp add: pr_write_def)
  have h4: "(0::int) \<le> 2" and h5: "(2::int) < 3" by simp_all
  have h6: "lookup ?fs3 (out_dir svc0 @ [out_name 0 2]) = None" by code_simp
  have "lookup ?fs3 (out_dir svc0 @ [out_name 0 0]) = Some (File (Encoded (pic L 256 [0])))"
    by code_simp
  then have o0: "\<exists>img. lookup ?fs3 (out_dir svc0 @ [out_name 0 0]) = Some (File (Encoded img))"
    by blast
  have "lookup ?fs3 (out_dir svc0 @ [out_name 0 1]) = Some (File (Encoded (pic L 256 [1])))"
    by code_simp
  then have o1: "\<exists>img. lookup ?fs3 (out_dir svc0 @ [out_name 0 1]) = Some (File (Encoded img))"
    by blast
  have h7: "\<forall>i. 0 \<le> i \<and> i < 2 \<longrightarrow>
      (\<exists>img. lookup ?fs3 (out_dir svc0 @ [out_name 0 i]) = Some (File (Encoded img)))"
  proof (intro allI impI)
    fix i :: int assume "0 \<le> i \<and> i < 2"
    then have "i = 0 \<or> i = 1" by arith
    with o0 o1 show "\<exists>img. lookup ?fs3 (out_dir svc0 @ [out_name 0 i]) = Some (File (Encoded img))"
      by auto
  qed
  have n: "str_path (out_dir svc0 @ [''0_'' @ str_int 2 @ ''_inpaint.png''])
      = ''/srv/EXE-GAN/recover_out/0_2_inpaint.png''"
    by code_simp
  show ?thesis
    using run_names_first_missing_output [where pr = "pr_write 2 0" and cv = cv0, OF h1 h2 h3 h4 h5 h6]
      h1 h2 g h7 n by simp
qed

text \<open>
  The output file of the only sample exists and the child has exited with status 0, and
  yet no image is returned: the file does not decode.
\<close>

theorem run_on_undecodable_output_counterexample:
  "clear_io_dirs svc0 w_stale = (Inr (), w_cleared) \<and>
   save_triplet svc0 t0 m0 e0 0 w_cleared = (Inr (), w_staged) \<and>
   fst (pr_raw (script_cmd svc0 1) (repo_root svc0) (files w_staged)) = 0 \<and>
   exists (snd (pr_raw (script_cmd svc0 1) (repo_root svc0) (files w_staged)))
     (out_dir svc0 @ [''0_0_inpaint.png'']) \<and>
   run pr_raw cv0 svc0 t0 m0 e0 1 w_stale =
     (Inl (UnidentifiedImageError ''/srv/EXE-GAN/recover_out/0_0_inpaint.png''),
      \<lparr>files = snd (pr_raw (script_cmd svc0 1) (repo_root svc0) (files w_staged)),
       spawned = [(script_cmd svc0 1, root0)]\<rparr>)"
  by code_simp

text \<open>
  With the same child and two samples asked for, the second file is the first missing
  one, and the error is the one of the first file.
\<close>

theorem run_error_before_missing_output_counterexample:
  "clear_io_dirs svc0 w_stale = (Inr (), w_cleared) \<and>
   save_triplet svc0 t0 m0 e0 0 w_cleared = (Inr (), w_staged) \<and>
   fst (pr_raw (script_cmd svc0 2) (repo_root svc0) (files w_staged)) = 0 \<and>
   exists (snd (pr_raw (script_cmd svc0 2) (repo_root svc0) (files w_staged)))
     (out_dir svc0 @ [''0_0_inpaint.png'']) \<and>
   \<not> exists (snd (pr_raw (script_cmd svc0 2) (repo_root svc0) (files w_staged)))
     (out_dir svc0 @ [''0_1_inpaint.png'']) \<and>
   fst (run pr_raw cv0 svc0 t0 m0 e0 2 w_stale) =
     Inl (UnidentifiedImageError ''/srv/EXE-GAN/recover_out/0_0_inpaint.png'') \<and>
   fst (run pr_raw cv0 svc0 t0 m0 e0 2 w_stale) \<noteq>
     Inl (FileNotFoundError ''Missing EXE-GAN output: /srv/EXE-GAN/recover_out/0_1_inpaint.png'')"
  by code_simp

section \<open>Staging on a ready area\<close>

lemma clear_io_dirs_ok:
  assumes "\<forall>d \<in> set (io_dirs self). is_dir (files w) d"
  shows "\<exists>w'. clear_io_dirs self w = (Inr (), w') \<and> spawned w' = spawned w \<and>
     (\<forall>p. lookup (files w') p =
        (if p \<noteq> [] \<and> parent p \<in> set (io_dirs self) \<and> is_file (files w) p then None
         else lookup (files w) p))"
proof -
  from clear_dirs_ok [OF assms] obtain fs' where
    c: "clear_dirs (io_dirs self) (files w) = (Inr (), fs')" and
    l: "\<forall>p. lookup fs' p =
        (if p \<noteq> [] \<and> parent p \<in> set (io_dirs self) \<and> is_file (files w) p then None
         else lookup (files w) p)"
    by blast
  have "clear_io_dirs self w = (Inr (), w\<lparr>files := fs'\<rparr>)"
    using c by (simp add: clear_io_dirs_def)
  with l show ?thesis by simp
qed

lemma cleared_is_dir:
  assumes "\<forall>p. lookup fs' p = (if p \<noteq> [] \<and> parent p \<in> D \<and> is_file fs p then None else lookup fs p)"
  shows "is_dir fs' q \<longleftrightarrow> is_dir fs q"
  using assms [rule_format, of q] by (auto simp: is_dir_lookup is_file_lookup)


lemma save_triplet_ok:
  assumes self: "self = mk_service r a b s"
    and ready: "staging_ready self (files w)"
    and valid: "valid_triple self t m e"
  shows "save_triplet self t m e 0 w =
     (Inr (), w\<lparr>files :=
        AList.update (r @ [''images'', ''exemplar'', ''0.png'']) (File (Encoded e))
          (AList.update (r @ [''images'', ''mask'', ''0.png'']) (File (Encoded m))
            (AList.update (r @ [''images'', ''target'', ''0.png'']) (File (Encoded t)) (files w)))\<rparr>)"
proof -
  let ?p1 = "r @ [''images'', ''target'', ''0.png'']"
  let ?p2 = "r @ [''images'', ''mask'', ''0.png'']"
  let ?p3 = "r @ [''images'', ''exemplar'', ''0.png'']"
  let ?fs1 = "AList.update ?p1 (File (Encoded t)) (files w)"
  let ?fs2 = "AList.update ?p2 (File (Encoded m)) ?fs1"
  from ready self have
    d: "is_dir (files w) (r @ [''images'', ''target''])" "is_dir (files w) (r @ [''images'', ''mask''])"
       "is_dir (files w) (r @ [''images'', ''exemplar''])" and
    n: "\<not> is_dir (files w) ?p1" "\<not> is_dir (files w) ?p2" "\<not> is_dir (files w) ?p3"
    by (simp_all add: staging_ready_def io_dirs_def mk_service_sel)
  from valid self have
    sz: "img_size t = (s, s)" "img_size m = (s, s)" "img_size e = (s, s)" and
    md: "png_writable (img_mode t)" "png_writable (img_mode m)" "png_writable (img_mode e)"
    by (simp_all add: valid_triple_def mk_service_sel)
  have par: "parent ?p1 = r @ [''images'', ''target'']" "parent ?p2 = r @ [''images'', ''mask'']"
    "parent ?p3 = r @ [''images'', ''exemplar'']"
    by (simp_all add: parent_def butlast_append)
  have s1: "save t ?p1 (files w) = (Inr (), ?fs1)"
    using d n md by (simp add: save_ok par)
  have s2: "save m ?p2 ?fs1 = (Inr (), ?fs2)"
    using d n md by (intro save_ok) (simp_all add: par is_dir_lookup lookup_update)
  have s3: "save e ?p3 ?fs2 = (Inr (), AList.update ?p3 (File (Encoded e)) ?fs2)"
    using d n md by (intro save_ok) (simp_all add: par is_dir_lookup lookup_update)
  show ?thesis
    using sz s1 s2 s3
    by (simp add: save_triplet_def self mk_service_sel joinpath_png_0)
qed

lemma staged_files:
  "open_image (AList.update (r @ [''images'', ''exemplar'', ''0.png'']) (File (Encoded e))
          (AList.update (r @ [''images'', ''mask'', ''0.png'']) (File (Encoded m))
            (AList.update (r @ [''images'', ''target'', ''0.png'']) (File (Encoded t)) fs0)))
     (r @ [''images'', x, ''0.png'']) =
   (if x = ''exemplar'' then Inr e else if x = ''mask'' then Inr m
    else if x = ''target'' then Inr t else open_image fs0 (r @ [''images'', x, ''0.png'']))"
  by (simp add: open_image_def lookup_update)


section \<open>Validation\<close>

lemma run_clear_fails:
  "clear_io_dirs self w = (Inl err, w1) \<Longrightarrow> run pr cv self t m e n w = (Inl err, w1)"
  by (simp add: run_def)

lemma run_save_fails:
  "clear_io_dirs self w = (Inr u, w1) \<Longrightarrow> save_triplet self t m e 0 w1 = (Inl err, w2) \<Longrightarrow>
   run pr cv self t m e n w = (Inl err, w2)"
  by (simp add: run_def)

lemma save_triplet_bad_size:
  assumes "img_size t \<noteq> (sample_size self, sample_size self) \<or>
           img_size m \<noteq> (sample_size self, sample_size self) \<or>
           img_size e \<noteq> (sample_size self, sample_size self)"
  shows "save_triplet self t m e i w =
     (Inl (ValueError
        ((if img_size t \<noteq> (sample_size self, sample_size self)
            then ''test_img must be '' @ str_size (sample_size self, sample_size self)
                 @ '', got '' @ str_size (img_size t) @ ''. Do face''
          else if img_size m \<noteq> (sample_size self, sample_size self)
            then ''mask_img must be '' @ str_size (sample_size self, sample_size self)
                 @ '', got '' @ str_size (img_size m) @ ''. Do mask''
          else ''exemplar_img must be '' @ str_size (sample_size self, sample_size self)
                 @ '', got '' @ str_size (img_size e) @ ''. Do exemplar'')
         @ '' cropping/resizing on the client before calling EXE-GAN.'')),
      w)"
  using assms by (auto simp: save_triplet_def Let_def size_error_def)

lemma clear_io_dirs_only_deletes:
  "clear_io_dirs self w = (r, w') \<Longrightarrow> lookup (files w') p = Some nd \<Longrightarrow>
   lookup (files w) p = Some nd"
  by (auto simp: clear_io_dirs_def split: prod.splits dest: clear_dirs_only_deletes)

lemma run_spawned_unstaged:
  assumes "\<not> (\<exists>w1 w2. clear_io_dirs self w = (Inr (), w1) \<and> save_triplet self t m e 0 w1 = (Inr (), w2))"
  shows "spawned (snd (run pr cv self t m e n w)) = spawned w"
proof -
  obtain r1 w1 where c: "clear_io_dirs self w = (r1, w1)" by (cases "clear_io_dirs self w")
  obtain r2 w2 where s: "save_triplet self t m e 0 w1 = (r2, w2)"
    by (cases "save_triplet self t m e 0 w1")
  show ?thesis
  proof (cases r1)
    case (Inl err)
    with c show ?thesis by (simp add: run_clear_fails clear_io_dirs_spawned)
  next
    case (Inr u)
    with c assms s obtain err where "r2 = Inl err" by (cases r2) auto
    with c s Inr show ?thesis
      by (simp add: run_save_fails staged_spawned)
  qed
qed

lemma run_spawned_staged:
  assumes "clear_io_dirs self w = (Inr u1, w1)" and "save_triplet self t m e 0 w1 = (Inr u2, w2)"
  shows "spawned (snd (run pr cv self t m e n w)) = spawned w @ [(script_cmd self n, repo_root self)]"
proof -
  obtain st fs3 where p: "pr (script_cmd self n) (repo_root self) (files w2) = (st, fs3)"
    by (cases "pr (script_cmd self n) (repo_root self) (files w2)")
  show ?thesis
    using staged_spawned [OF assms] p
    by (simp add: run_staged [OF assms] run_script_eq [where pr = pr, OF p] load_outputs_eq)
qed

text \<open>
  C2 (amended): when the staging directories exist and some image has not the configured
  size, \<^verbatim>\<open>run\<close> fails with a \<^verbatim>\<open>ValueError\<close> before any file is created or changed and
  before any process is started, but after the clearing step: the world at the error is
  the one clearing leaves, in which the regular files that were directly in the four
  staging directories are deleted and everything else is as before.
\<close>

theorem validation_precedes_writing:
  assumes "\<forall>d \<in> set (io_dirs self). is_dir (files w) d"
    and "img_size t \<noteq> (sample_size self, sample_size self) \<or>
         img_size m \<noteq> (sample_size self, sample_size self) \<or>
         img_size e \<noteq> (sample_size self, sample_size self)"
  shows "\<exists>msg w'. run pr cv self t m e n w = (Inl (ValueError msg), w') \<and>
           clear_io_dirs self w = (Inr (), w') \<and>
           spawned w' = spawned w \<and>
           (\<forall>p. lookup (files w') p =
              (if p \<noteq> [] \<and> parent p \<in> set (io_dirs self) \<and> is_file (files w) p then None
               else lookup (files w) p))"
proof -
  from clear_io_dirs_ok [OF assms(1)] obtain w' where
    c: "clear_io_dirs self w = (Inr (), w')" and sp: "spawned w' = spawned w" and
    l: "\<forall>p. lookup (files w') p =
              (if p \<noteq> [] \<and> parent p \<in> set (io_dirs self) \<and> is_file (files w) p then None
               else lookup (files w) p)"
    by blast
  from save_triplet_bad_size [OF assms(2), of 0 w'] obtain msg where
    "save_triplet self t m e 0 w' = (Inl (ValueError msg), w')"
    by blast
  from run_save_fails [OF c this] c sp l show ?thesis by blast
qed

text \<open>
  C5: when some image has not the size \<open>(sample_size, sample_size)\<close>, \<^verbatim>\<open>run\<close> fails and
  writes nothing: every entry of the file system after the call was there before, with
  the same content. With the staging directories in place the error is the
  \<^verbatim>\<open>ValueError\<close> whose message names the first offending image (test, mask, exemplar in
  this order), the expected size and the size received.
\<close>

theorem size_mismatch_is_reported:
  assumes "img_size t \<noteq> (sample_size self, sample_size self) \<or>
           img_size m \<noteq> (sample_size self, sample_size self) \<or>
           img_size e \<noteq> (sample_size self, sample_size self)"
  shows "\<exists>err w'. run pr cv self t m e n w = (Inl err, w') \<and>
           (\<forall>p nd. lookup (files w') p = Some nd \<longrightarrow> lookup (files w) p = Some nd) \<and>
           ((\<forall>d \<in> set (io_dirs self). is_dir (files w) d) \<longrightarrow>
            err = ValueError
              ((if img_size t \<noteq> (sample_size self, sample_size self)
                  then ''test_img must be '' @ str_size (sample_size self, sample_size self)
                       @ '', got '' @ str_size (img_size t) @ ''. Do face''
                else if img_size m \<noteq> (sample_size self, sample_size self)
                  then ''mask_img must be '' @ str_size (sample_size self, sample_size self)
                       @ '', got '' @ str_size (img_size m) @ ''. Do mask''
                else ''exemplar_img must be '' @ str_size (sample_size self, sample_size self)
                       @ '', got '' @ str_size (img_size e) @ ''. Do exemplar'')
               @ '' cropping/resizing on the client before calling EXE-GAN.''))"
proof -
  obtain r1 w1 where c: "clear_io_dirs self w = (r1, w1)" by (cases "clear_io_dirs self w")
  have del: "\<forall>p nd. lookup (files w1) p = Some nd \<longrightarrow> lookup (files w) p = Some nd"
    using clear_io_dirs_only_deletes [OF c] by blast
  show ?thesis
  proof (cases r1)
    case (Inl err)
    have "\<not> (\<forall>d \<in> set (io_dirs self). is_dir (files w) d)"
      using clear_io_dirs_ok [of self w] c Inl by auto
    with run_clear_fails [of self w err w1 pr cv t m e n] c Inl del show ?thesis by auto
  next
    case (Inr u)
    from run_save_fails [OF c [unfolded Inr] save_triplet_bad_size [OF assms, of 0 w1], of pr cv n]
      del show ?thesis
      by auto
  qed
qed


theorem validation_precedes_writing_witness:
  "list_all (is_dir (files w_stale)) (io_dirs svc0) \<and>
   img_size small \<noteq> (sample_size svc0, sample_size svc0) \<and>
   (\<exists>msg. run (pr_write 1 0) cv0 svc0 t0 small e0 1 w_stale = (Inl (ValueError msg), w_cleared)) \<and>
   is_file (files w_stale) (root0 @ [''images'', ''target'', ''0.png'']) \<and>
   lookup (files w_cleared) (root0 @ [''images'', ''target'', ''0.png'']) = None"
proof -
  have h1: "\<forall>d \<in> set (io_dirs svc0). is_dir (files w_stale) d" by code_simp
  have h2: "img_size small \<noteq> (sample_size svc0, sample_size svc0)" by code_simp
  have c: "clear_io_dirs svc0 w_stale = (Inr (), w_cleared)" by code_simp
  have f: "is_file (files w_stale) (root0 @ [''images'', ''target'', ''0.png''])" by code_simp
  have g: "lookup (files w_cleared) (root0 @ [''images'', ''target'', ''0.png'']) = None" by code_simp
  from validation_precedes_writing [where pr = "pr_write 1 0" and cv = cv0 and t = t0 and m = small
      and e = e0 and n = 1, OF h1 disjI2 [OF disjI1 [OF h2]]] c
  have "\<exists>msg. run (pr_write 1 0) cv0 svc0 t0 small e0 1 w_stale = (Inl (ValueError msg), w_cleared)"
    by auto
  moreover have "list_all (is_dir (files w_stale)) (io_dirs svc0)"
    using h1 by (simp add: list_all_iff)
  ultimately show ?thesis using h2 f g by blast
qed

theorem validation_after_clearing_counterexample:
  "fst (run (pr_write 1 0) cv0 svc0 t0 small e0 1 w_stale) =
     Inl (ValueError ''mask_img must be (256, 256), got (128, 128). Do mask cropping/resizing on the client before calling EXE-GAN.'') \<and>
   is_file (files w_stale) (root0 @ [''recover_out'', ''0_1_inpaint.png'']) \<and>
   \<not> exists (files (snd (run (pr_write 1 0) cv0 svc0 t0 small e0 1 w_stale)))
         (root0 @ [''recover_out'', ''0_1_inpaint.png''])"
  by code_simp

theorem size_mismatch_is_reported_witness:
  "img_size small \<noteq> (sample_size svc0, sample_size svc0) \<and>
   list_all (is_dir (files w_fresh)) (io_dirs svc0) \<and>
   fst (run (pr_write 1 0) cv0 svc0 t0 small e0 1 w_fresh) =
     Inl (ValueError ''mask_img must be (256, 256), got (128, 128). Do mask cropping/resizing on the client before calling EXE-GAN.'')"
proof -
  have h1: "\<forall>d \<in> set (io_dirs svc0). is_dir (files w_fresh) d" by code_simp
  have h2: "img_size small \<noteq> (sample_size svc0, sample_size svc0)" by code_simp
  have msg: "(if img_size t0 \<noteq> (sample_size svc0, sample_size svc0)
                  then ''test_img must be '' @ str_size (sample_size svc0, sample_size svc0)
                       @ '', got '' @ str_size (img_size t0) @ ''. Do face''
                else if img_size small \<noteq> (sample_size svc0, sample_size svc0)
                  then ''mask_img must be '' @ str_size (sample_size svc0, sample_size svc0)
                       @ '', got '' @ str_size (img_size small) @ ''. Do mask''
                else ''exemplar_img must be '' @ str_size (sample_size svc0, sample_size svc0)
                       @ '', got '' @ str_size (img_size e0) @ ''. Do exemplar'')
               @ '' cropping/resizing on the client before calling EXE-GAN.''
     = ''mask_img must be (256, 256), got (128, 128). Do mask cropping/resizing on the client before calling EXE-GAN.''"
    by code_simp
  from size_mismatch_is_reported [where pr = "pr_write 1 0" and cv = cv0 and t = t0 and m = small
      and e = e0 and n = 1 and w = w_fresh and self = svc0, OF disjI2 [OF disjI1 [OF h2]]] h1
  have "fst (run (pr_write 1 0) cv0 svc0 t0 small e0 1 w_fresh) =
     Inl (ValueError ''mask_img must be (256, 256), got (128, 128). Do mask cropping/resizing on the client before calling EXE-GAN.'')"
    unfolding msg by auto
  moreover have "list_all (is_dir (files w_fresh)) (io_dirs svc0)"
    using h1 by (simp add: list_all_iff)
  ultimately show ?thesis using h2 by blast
qed

section \<open>The clearing step\<close>

lemma unlink_files_noop:
  "\<forall>f \<in> set es. \<not> is_file fs f \<Longrightarrow> unlink_files es fs = (Inr (), fs)"
  by (induction es) simp_all

lemma clear_dirs_noop:
  assumes "\<forall>d \<in> set ds. is_dir fs d"
    and "\<forall>p. p \<noteq> [] \<and> parent p \<in> set ds \<longrightarrow> \<not> is_file fs p"
  shows "clear_dirs ds fs = (Inr (), fs)"
  using assms
proof (induction ds)
  case Nil
  then show ?case by simp
next
  case (Cons d ds)
  have "unlink_files (filter (\<lambda>p. p \<noteq> [] \<and> parent p = d) (map fst fs)) fs = (Inr (), fs)"
    using Cons.prems(2) by (intro unlink_files_noop) auto
  with Cons show ?case by (simp add: iterdir_dir)
qed

text \<open>
  C6: with the four staging directories in place, the clearing step succeeds and removes
  exactly the regular files that are directly in one of them: afterwards none of the four
  holds a regular file, while subdirectories, what is below them and everything outside
  are as before. \<^verbatim>\<open>run\<close> starts with this step, so its outcome is the one it has on the
  cleared world: whatever files an earlier call left in the staging directories, none of
  them is there after the clearing step of the next call.
\<close>

theorem clearing_removes_regular_files:
  assumes "\<forall>d \<in> set (io_dirs self). is_dir (files w) d"
  shows "\<exists>w'. clear_io_dirs self w = (Inr (), w') \<and> spawned w' = spawned w \<and>
     (\<forall>p. lookup (files w') p =
        (if p \<noteq> [] \<and> parent p \<in> set (io_dirs self) \<and> is_file (files w) p then None
         else lookup (files w) p)) \<and>
     (\<forall>p. p \<noteq> [] \<and> parent p \<in> set (io_dirs self) \<longrightarrow> \<not> is_file (files w') p) \<and>
     run pr cv self t m e n w = run pr cv self t m e n w'"
proof -
  from clear_io_dirs_ok [OF assms] obtain w' where
    c: "clear_io_dirs self w = (Inr (), w')" and sp: "spawned w' = spawned w" and
    l: "\<forall>p. lookup (files w') p =
        (if p \<noteq> [] \<and> parent p \<in> set (io_dirs self) \<and> is_file (files w) p then None
         else lookup (files w) p)"
    by blast
  have nf: "\<forall>p. p \<noteq> [] \<and> parent p \<in> set (io_dirs self) \<longrightarrow> \<not> is_file (files w') p"
    using l by (auto simp: is_file_lookup)
  have d': "\<forall>d \<in> set (io_dirs self). is_dir (files w') d"
    using assms cleared_is_dir [OF l] by simp
  have "clear_io_dirs self w' = (Inr (), w')"
    using clear_dirs_noop [OF d' nf] by (simp add: clear_io_dirs_def)
  with c have "run pr cv self t m e n w = run pr cv self t m e n w'"
    by (simp add: run_def)
  with c sp l nf show ?thesis by blast
qed

theorem clearing_removes_regular_files_witness:
  "list_all (is_dir (files (snd (run (pr_write 2 0) cv0 svc0 t0 m0 e0 2 w_stale)))) (io_dirs svc0) \<and>
   is_file (files (snd (run (pr_write 2 0) cv0 svc0 t0 m0 e0 2 w_stale)))
     (root0 @ [''recover_out'', ''0_1_inpaint.png'']) \<and>
   is_file (files (snd (run (pr_write 2 0) cv0 svc0 t0 m0 e0 2 w_stale)))
     (root0 @ [''images'', ''mask'', ''0.png'']) \<and>
   clear_io_dirs svc0 (snd (run (pr_write 2 0) cv0 svc0 t0 m0 e0 2 w_stale)) =
     (Inr (), w_cleared\<lparr>spawned := [(script_cmd svc0 2, root0)]\<rparr>) \<and>
   \<not> is_file (files w_cleared) (root0 @ [''recover_out'', ''0_1_inpaint.png'']) \<and>
   \<not> is_file (files w_cleared) (root0 @ [''images'', ''mask'', ''0.png'']) \<and>
   is_dir (files w_cleared) (root0 @ [''recover_out'', ''keep'']) \<and>
   is_file (files w_cleared) (root0 @ [''recover_out'', ''keep'', ''note.txt''])"
proof -
  let ?w = "snd (run (pr_write 2 0) cv0 svc0 t0 m0 e0 2 w_stale)"
  have h: "\<forall>d \<in> set (io_dirs svc0). is_dir (files ?w) d" by code_simp
  have f1: "is_file (files ?w) (root0 @ [''recover_out'', ''0_1_inpaint.png''])" by code_simp
  have f2: "is_file (files ?w) (root0 @ [''images'', ''mask'', ''0.png''])" by code_simp
  have c: "clear_io_dirs svc0 ?w = (Inr (), w_cleared\<lparr>spawned := [(script_cmd svc0 2, root0)]\<rparr>)"
    by code_simp
  have k1: "is_dir (files w_cleared) (root0 @ [''recover_out'', ''keep''])" by code_simp
  have k2: "is_file (files w_cleared) (root0 @ [''recover_out'', ''keep'', ''note.txt''])" by code_simp
  have p: "parent (root0 @ [''recover_out'', ''0_1_inpaint.png'']) \<in> set (io_dirs svc0)"
    "parent (root0 @ [''images'', ''mask'', ''0.png'']) \<in> set (io_dirs svc0)"
    by code_simp+
  from clearing_removes_regular_files [where pr = "pr_write 2 0" and cv = cv0 and t = t0 and m = m0
      and e = e0 and n = 2, OF h] c
  have "\<forall>p. p \<noteq> [] \<and> parent p \<in> set (io_dirs svc0) \<longrightarrow> \<not> is_file (files w_cleared) p"
    by auto
  with p have "\<not> is_file (files w_cleared) (root0 @ [''recover_out'', ''0_1_inpaint.png''])"
    "\<not> is_file (files w_cleared) (root0 @ [''images'', ''mask'', ''0.png''])"
    by auto
  moreover have "list_all (is_dir (files ?w)) (io_dirs svc0)"
    using h by (simp add: list_all_iff)
  ultimately show ?thesis using f1 f2 c k1 k2 by blast
qed

section \<open>Starting the child process\<close>

text \<open>
  C7 (amended): a call to \<^verbatim>\<open>run\<close> whose clearing and staging steps succeed starts exactly
  one child process, and waits for it: its working directory is the repository root and
  its argument list names the encoder checkpoint, the model checkpoint, the mask, target
  and exemplar directories, the requested \<open>sample_times\<close> and the output directory. A
  call that fails in clearing, validation or staging starts none.
\<close>

theorem run_starts_one_process:
  "spawned (snd (run pr cv (mk_service r a b s) t m e n w)) =
     (if \<exists>w1 w2. clear_io_dirs (mk_service r a b s) w = (Inr (), w1) \<and>
                  save_triplet (mk_service r a b s) t m e 0 w1 = (Inr (), w2)
      then spawned w @
        [([''python'', ''guided_recovery.py'',
           ''--psp_checkpoint_path'', str_path (joinpath r a),
           ''--ckpt'', str_path (joinpath r b),
           ''--masked_dir'', str_path (r @ [''images'', ''mask'']),
           ''--gt_dir'', str_path (r @ [''images'', ''target'']),
           ''--exemplar_dir'', str_path (r @ [''images'', ''exemplar'']),
           ''--sample_times'', str_int n,
           ''--eval_dir'', str_path (r @ [''recover_out''])],
          r)]
      else spawned w)"
proof (cases "\<exists>w1 w2. clear_io_dirs (mk_service r a b s) w = (Inr (), w1) \<and>
                  save_triplet (mk_service r a b s) t m e 0 w1 = (Inr (), w2)")
  case True
  then obtain w1 w2 where "clear_io_dirs (mk_service r a b s) w = (Inr (), w1)"
    and "save_triplet (mk_service r a b s) t m e 0 w1 = (Inr (), w2)" by blast
  from run_spawned_staged [OF this, of pr cv n] True show ?thesis
    by (simp add: script_cmd_def mk_service_sel)
next
  case False
  from run_spawned_unstaged [OF this] False show ?thesis by simp
qed

theorem run_starts_one_process_witness:
  "clear_io_dirs svc0 w_stale = (Inr (), w_cleared) \<and>
   save_triplet svc0 t0 m0 e0 0 w_cleared = (Inr (), w_staged) \<and>
   spawned (snd (run (pr_write 1 0) cv0 svc0 t0 m0 e0 1 w_stale)) =
     [([''python'', ''guided_recovery.py'',
        ''--psp_checkpoint_path'', ''/srv/EXE-GAN/pre-train/psp_ffhq_encode.pt'',
        ''--ckpt'', ''/srv/EXE-GAN/checkpoint/EXE_GAN_model.pt'',
        ''--masked_dir'', ''/srv/EXE-GAN/images/mask'',
        ''--gt_dir'', ''/srv/EXE-GAN/images/target'',
        ''--exemplar_dir'', ''/srv/EXE-GAN/images/exemplar'',
        ''--sample_times'', ''1'',
        ''--eval_dir'', ''/srv/EXE-GAN/recover_out''],
       [''srv'', ''EXE-GAN''])]"
proof -
  have h1: "clear_io_dirs svc0 w_stale = (Inr (), w_cleared)" by code_simp
  have h2: "save_triplet svc0 t0 m0 e0 0 w_cleared = (Inr (), w_staged)" by code_simp
  have ex: "\<exists>w1 w2. clear_io_dirs svc0 w_stale = (Inr (), w1) \<and>
                  save_triplet svc0 t0 m0 e0 0 w1 = (Inr (), w2)"
    using h1 h2 by blast
  have s: "spawned w_stale = []" by code_simp
  have args: "[''python'', ''guided_recovery.py'',
           ''--psp_checkpoint_path'', str_path (joinpath root0 ''pre-train/psp_ffhq_encode.pt''),
           ''--ckpt'', str_path (joinpath root0 ''checkpoint/EXE_GAN_model.pt''),
           ''--masked_dir'', str_path (root0 @ [''images'', ''mask'']),
           ''--gt_dir'', str_path (root0 @ [''images'', ''target'']),
           ''--exemplar_dir'', str_path (root0 @ [''images'', ''exemplar'']),
           ''--sample_times'', str_int 1,
           ''--eval_dir'', str_path (root0 @ [''recover_out''])]
     = [''python'', ''guided_recovery.py'',
        ''--psp_checkpoint_path'', ''/srv/EXE-GAN/pre-train/psp_ffhq_encode.pt'',
        ''--ckpt'', ''/srv/EXE-GAN/checkpoint/EXE_GAN_model.pt'',
        ''--masked_dir'', ''/srv/EXE-GAN/images/mask'',
        ''--gt_dir'', ''/srv/EXE-GAN/images/target'',
        ''--exemplar_dir'', ''/srv/EXE-GAN/images/exemplar'',
        ''--sample_times'', ''1'',
        ''--eval_dir'', ''/srv/EXE-GAN/recover_out'']"
    by code_simp
  have r: "root0 = [''srv'', ''EXE-GAN'']" by (simp add: root0_def)
  from run_starts_one_process [of "pr_write 1 0" cv0 root0 "''pre-train/psp_ffhq_encode.pt''"
      "''checkpoint/EXE_GAN_model.pt''" 256 t0 m0 e0 1 w_stale] ex
  have "spawned (snd (run (pr_write 1 0) cv0 svc0 t0 m0 e0 1 w_stale)) =
     [([''python'', ''guided_recovery.py'',
        ''--psp_checkpoint_path'', ''/srv/EXE-GAN/pre-train/psp_ffhq_encode.pt'',
        ''--ckpt'', ''/srv/EXE-GAN/checkpoint/EXE_GAN_model.pt'',
        ''--masked_dir'', ''/srv/EXE-GAN/images/mask'',
        ''--gt_dir'', ''/srv/EXE-GAN/images/target'',
        ''--exemplar_dir'', ''/srv/EXE-GAN/images/exemplar'',
        ''--sample_times'', ''1'',
        ''--eval_dir'', ''/srv/EXE-GAN/recover_out''],
       [''srv'', ''EXE-GAN''])]"
    unfolding args svc0_def [symmetric] by (simp add: s r)
  with h1 h2 show ?thesis by blast
qed

theorem run_without_process_counterexample:
  "fst (run (pr_write 1 0) cv0 svc0 t0 small e0 1 w_fresh) =
     Inl (ValueError ''mask_img must be (256, 256), got (128, 128). Do mask cropping/resizing on the client before calling EXE-GAN.'') \<and>
   spawned w_fresh = [] \<and>
   spawned (snd (run (pr_write 1 0) cv0 svc0 t0 small e0 1 w_fresh)) = []"
  by code_simp



section \<open>The staged files\<close>

lemma decode_uploads_modes:
  "decode_uploads cv tb mb eb = Inr (t, m, e) \<Longrightarrow>
   img_mode t = RGB \<and> img_mode m = L \<and> img_mode e = RGB"
  by (auto simp: decode_uploads_def img_mode_convert split: sum.splits)

lemma decode_uploads_sizes:
  "decode_uploads cv (Encoded t) (Encoded m) (Encoded e) =
     Inr (convert cv RGB t, convert cv L m, convert cv RGB e)"
  by (simp add: decode_uploads_def open_bytes_def)

text \<open>
  C8: for a valid triple on a ready staging area the staging step succeeds and writes
  each image under the name \<^verbatim>\<open>0.png\<close> into its directory (the test image into
  \<^verbatim>\<open>images/target\<close>, the mask into \<^verbatim>\<open>images/mask\<close>, the exemplar into
  \<^verbatim>\<open>images/exemplar\<close>); reading a staged file back gives the image that was passed, with
  its size, mode and raster, so the channel depth is preserved. For the triple that the
  adapter passes, the staged target and exemplar are RGB and the staged mask is
  single-channel (mode L).
\<close>

theorem staging_persists_triplet:
  assumes "staging_ready (mk_service r a b s) (files w)"
    and "valid_triple (mk_service r a b s) t m e"
  shows "\<exists>w'. save_triplet (mk_service r a b s) t m e 0 w = (Inr (), w') \<and>
           open_image (files w') (r @ [''images'', ''target'', ''0.png'']) = Inr t \<and>
           open_image (files w') (r @ [''images'', ''mask'', ''0.png'']) = Inr m \<and>
           open_image (files w') (r @ [''images'', ''exemplar'', ''0.png'']) = Inr e \<and>
           (\<forall>p. p \<notin> {r @ [''images'', ''target'', ''0.png''], r @ [''images'', ''mask'', ''0.png''],
                       r @ [''images'', ''exemplar'', ''0.png'']} \<longrightarrow>
                lookup (files w') p = lookup (files w) p) \<and>
           (\<forall>tb mb eb. decode_uploads cv tb mb eb = Inr (t, m, e) \<longrightarrow>
              map_sum id img_mode (open_image (files w') (r @ [''images'', ''target'', ''0.png''])) = Inr RGB \<and>
              map_sum id img_mode (open_image (files w') (r @ [''images'', ''mask'', ''0.png''])) = Inr L \<and>
              map_sum id img_mode (open_image (files w') (r @ [''images'', ''exemplar'', ''0.png''])) = Inr RGB)"
proof -
  let ?w' = "w\<lparr>files :=
        AList.update (r @ [''images'', ''exemplar'', ''0.png'']) (File (Encoded e))
          (AList.update (r @ [''images'', ''mask'', ''0.png'']) (File (Encoded m))
            (AList.update (r @ [''images'', ''target'', ''0.png'']) (File (Encoded t)) (files w)))\<rparr>"
  have s: "save_triplet (mk_service r a b s) t m e 0 w = (Inr (), ?w')"
    by (rule save_triplet_ok [OF refl assms])
  have o: "open_image (files ?w') (r @ [''images'', ''target'', ''0.png'']) = Inr t"
    "open_image (files ?w') (r @ [''images'', ''mask'', ''0.png'']) = Inr m"
    "open_image (files ?w') (r @ [''images'', ''exemplar'', ''0.png'']) = Inr e"
    by (simp_all add: staged_files)
  have fr: "\<forall>p. p \<notin> {r @ [''images'', ''target'', ''0.png''], r @ [''images'', ''mask'', ''0.png''],
                       r @ [''images'', ''exemplar'', ''0.png'']} \<longrightarrow>
                lookup (files ?w') p = lookup (files w) p"
    by (simp add: lookup_update)
  have md: "\<forall>tb mb eb. decode_uploads cv tb mb eb = Inr (t, m, e) \<longrightarrow>
              map_sum id img_mode (open_image (files ?w') (r @ [''images'', ''target'', ''0.png''])) = Inr RGB \<and>
              map_sum id img_mode (open_image (files ?w') (r @ [''images'', ''mask'', ''0.png''])) = Inr L \<and>
              map_sum id img_mode (open_image (files ?w') (r @ [''images'', ''exemplar'', ''0.png''])) = Inr RGB"
    by (auto simp: staged_files dest: decode_uploads_modes)
  from s o fr md show ?thesis by blast
qed

theorem staging_persists_triplet_witness:
  "staging_ready svc0 (files w_cleared) \<and>
   valid_triple svc0 (convert cv0 RGB m0) (convert cv0 L m0) (convert cv0 RGB e0) \<and>
   decode_uploads cv0 (Encoded m0) (Encoded m0) (Encoded e0) =
     Inr (convert cv0 RGB m0, convert cv0 L m0, convert cv0 RGB e0) \<and>
   (\<exists>w'. save_triplet svc0 (convert cv0 RGB m0) (convert cv0 L m0) (convert cv0 RGB e0) 0 w_cleared
            = (Inr (), w') \<and>
      open_image (files w') (root0 @ [''images'', ''target'', ''0.png'']) = Inr (pic RGB 256 [2, 2, 2]) \<and>
      open_image (files w') (root0 @ [''images'', ''mask'', ''0.png'']) = Inr (pic L 256 [2]) \<and>
      open_image (files w') (root0 @ [''images'', ''exemplar'', ''0.png'']) = Inr (pic RGB 256 [3]))"
proof -
  have h1: "staging_ready (mk_service root0 ''pre-train/psp_ffhq_encode.pt'' ''checkpoint/EXE_GAN_model.pt'' 256) (files w_cleared)"
    by code_simp
  have h2: "valid_triple (mk_service root0 ''pre-train/psp_ffhq_encode.pt'' ''checkpoint/EXE_GAN_model.pt'' 256)
      (convert cv0 RGB m0) (convert cv0 L m0) (convert cv0 RGB e0)"
    by code_simp
  have d: "decode_uploads cv0 (Encoded m0) (Encoded m0) (Encoded e0) =
     Inr (convert cv0 RGB m0, convert cv0 L m0, convert cv0 RGB e0)"
    by (rule decode_uploads_sizes)
  have v: "convert cv0 RGB m0 = pic RGB 256 [2, 2, 2]" "convert cv0 L m0 = pic L 256 [2]"
    "convert cv0 RGB e0 = pic RGB 256 [3]"
    by code_simp+
  from staging_persists_triplet [where cv = cv0, OF h1 h2] h1 h2 d show ?thesis
    unfolding svc0_def [symmetric] v by blast
qed

section \<open>Construction\<close>

lemma mkdir_existing: "is_dir fs p \<Longrightarrow> mkdir fs p = Inr fs"
  by (subst mkdir.simps) (simp add: os_mkdir_def is_dir_lookup)

lemma os_mkdir_new:
  "lookup fs p = None \<Longrightarrow> lookup fs (parent p) = Some Dir \<Longrightarrow>
   os_mkdir fs p = Inr (AList.update p Dir fs)"
  by (simp add: os_mkdir_def)

lemma os_mkdir_orphan:
  "lookup fs p = None \<Longrightarrow> lookup fs (parent p) = None \<Longrightarrow>
   os_mkdir fs p = Inl (FileNotFoundError (str_path p))"
  by (simp add: os_mkdir_def)

lemma mkdir_creates:
  "\<forall>q. prefix q p \<longrightarrow> \<not> is_file fs q \<Longrightarrow>
   \<exists>fs'. mkdir fs p = Inr fs' \<and> is_dir fs' p \<and>
     (\<forall>q. lookup fs' q = lookup fs q \<or>
          (lookup fs q = None \<and> lookup fs' q = Some Dir \<and> prefix q p))"
proof (induction p rule: rev_induct)
  case Nil
  have "is_dir fs []" by (simp add: is_dir_lookup)
  then show ?case by (auto simp: mkdir_existing)
next
  case (snoc c q)
  let ?p = "q @ [c]"
  have par: "parent ?p = q" by (simp add: parent_def)
  have nf: "\<not> is_file fs ?p" "\<not> is_file fs q"
    using snoc.prems by auto
  show ?case
  proof (cases "lookup fs ?p")
    case (Some nd)
    with nf have "is_dir fs ?p"
      by (cases nd) (auto simp: is_dir_lookup is_file_lookup)
    then show ?thesis by (auto simp: mkdir_existing)
  next
    case None
    have pne: "?p \<noteq> []" by simp
    show ?thesis
    proof (cases "lookup fs q")
      case (Some nd)
      with nf have d: "lookup fs q = Some Dir"
        by (cases nd) (auto simp: is_file_lookup)
      have "mkdir fs ?p = Inr (AList.update ?p Dir fs)"
        by (subst mkdir.simps) (simp add: os_mkdir_new [OF None] par d)
      moreover have "is_dir (AList.update ?p Dir fs) ?p"
        by (simp add: is_dir_lookup lookup_update)
      moreover have "\<forall>x. lookup (AList.update ?p Dir fs) x = lookup fs x \<or>
          (lookup fs x = None \<and> lookup (AList.update ?p Dir fs) x = Some Dir \<and> prefix x ?p)"
        using None by (auto simp: lookup_update)
      ultimately show ?thesis by blast
    next
      case qn: None
      have "\<forall>x. prefix x q \<longrightarrow> \<not> is_file fs x"
        using snoc.prems by (auto intro: prefix_order.trans)
      from snoc.IH [OF this] obtain fs1 where
        m1: "mkdir fs q = Inr fs1" and d1: "is_dir fs1 q" and
        l1: "\<forall>x. lookup fs1 x = lookup fs x \<or>
               (lookup fs x = None \<and> lookup fs1 x = Some Dir \<and> prefix x q)"
        by blast
      have "\<not> prefix ?p q" by (auto simp: prefix_def)
      with l1 [rule_format, of ?p] None have n1: "lookup fs1 ?p = None" by auto
      have o1: "os_mkdir fs1 ?p = Inr (AList.update ?p Dir fs1)"
        using d1 by (simp add: os_mkdir_new [OF n1] par is_dir_lookup)
      have "mkdir fs ?p = Inr (AList.update ?p Dir fs1)"
        by (subst mkdir.simps) (simp add: os_mkdir_orphan [OF None] par qn m1 o1)
      moreover have "is_dir (AList.update ?p Dir fs1) ?p"
        by (simp add: is_dir_lookup lookup_update)
      moreover have "lookup (AList.update ?p Dir fs1) x = lookup fs x \<or>
          (lookup fs x = None \<and> lookup (AList.update ?p Dir fs1) x = Some Dir \<and> prefix x ?p)" for x
        using l1 [rule_format, of x] None by (auto simp: lookup_update)
      ultimately show ?thesis by blast
    qed
  qed
qed

lemma mkdir_all_existing:
  "\<forall>d \<in> set ds. is_dir fs d \<Longrightarrow> mkdir_all ds fs = (Inr (), fs)"
  by (induction ds) (simp_all add: mkdir_existing)

lemma mkdir_all_creates:
  "\<forall>d \<in> set ds. \<forall>q. prefix q d \<longrightarrow> \<not> is_file fs q \<Longrightarrow>
   \<exists>fs'. mkdir_all ds fs = (Inr (), fs') \<and> (\<forall>d \<in> set ds. is_dir fs' d) \<and>
     (\<forall>q. lookup fs' q = lookup fs q \<or>
          (lookup fs q = None \<and> lookup fs' q = Some Dir \<and> (\<exists>d \<in> set ds. prefix q d)))"
proof (induction ds arbitrary: fs)
  case Nil
  then show ?case by simp
next
  case (Cons d ds)
  from Cons.prems have "\<forall>q. prefix q d \<longrightarrow> \<not> is_file fs q" by simp
  from mkdir_creates [OF this] obtain fs1 where
    m1: "mkdir fs d = Inr fs1" and d1: "is_dir fs1 d" and
    l1: "\<forall>q. lookup fs1 q = lookup fs q \<or>
            (lookup fs q = None \<and> lookup fs1 q = Some Dir \<and> prefix q d)"
    by blast
  have nf1: "\<not> is_file fs1 q" if "\<not> is_file fs q" for q
    using l1 [rule_format, of q] that by (auto simp: is_file_lookup)
  have "\<forall>d' \<in> set ds. \<forall>q. prefix q d' \<longrightarrow> \<not> is_file fs1 q"
    using Cons.prems nf1 by auto
  from Cons.IH [OF this] obtain fs' where
    m2: "mkdir_all ds fs1 = (Inr (), fs')" and d2: "\<forall>d' \<in> set ds. is_dir fs' d'" and
    l2: "\<forall>q. lookup fs' q = lookup fs1 q \<or>
            (lookup fs1 q = None \<and> lookup fs' q = Some Dir \<and> (\<exists>d' \<in> set ds. prefix q d'))"
    by blast
  have "mkdir_all (d # ds) fs = (Inr (), fs')"
    using m1 m2 by simp
  moreover have "is_dir fs' d"
    using d1 l2 [rule_format, of d] by (auto simp: is_dir_lookup)
  moreover have "lookup fs' q = lookup fs q \<or>
          (lookup fs q = None \<and> lookup fs' q = Some Dir \<and> (\<exists>d' \<in> set (d # ds). prefix q d'))" for q
    using l1 [rule_format, of q] l2 [rule_format, of q] by auto
  ultimately show ?case using d2 by auto
qed

text \<open>
  C9: constructing the service on a file system in which no regular file sits on a
  staging path or on one of its ancestors succeeds and leaves the four directories
  \<^verbatim>\<open>images/mask\<close>, \<^verbatim>\<open>images/target\<close>, \<^verbatim>\<open>images/exemplar\<close> and \<^verbatim>\<open>recover_out\<close> below the
  repository root in place: what was there before is untouched, and only missing
  directories on those paths are created. Constructing it again on the result succeeds
  and changes nothing.
\<close>

theorem init_creates_staging_directories:
  assumes "root_of file root_arg = Inr r"
    and "\<forall>d \<in> set (io_dirs (mk_service r a b s)). \<forall>q. prefix q d \<longrightarrow> \<not> is_file (files w) q"
  shows "\<exists>w'. init file root_arg a b s w = (Inr (mk_service r a b s), w') \<and>
           io_dirs (mk_service r a b s) =
             [r @ [''images'', ''mask''], r @ [''images'', ''target''],
              r @ [''images'', ''exemplar''], r @ [''recover_out'']] \<and>
           (\<forall>d \<in> set (io_dirs (mk_service r a b s)). is_dir (files w') d) \<and>
           (\<forall>q nd. lookup (files w) q = Some nd \<longrightarrow> lookup (files w') q = Some nd) \<and>
           (\<forall>q. lookup (files w) q = None \<and> lookup (files w') q \<noteq> None \<longrightarrow>
                lookup (files w') q = Some Dir \<and>
                (\<exists>d \<in> set (io_dirs (mk_service r a b s)). prefix q d)) \<and>
           spawned w' = spawned w \<and>
           init file root_arg a b s w' = (Inr (mk_service r a b s), w')"
proof -
  let ?self = "mk_service r a b s"
  from mkdir_all_creates [OF assms(2)] obtain fs' where
    m: "mkdir_all (io_dirs ?self) (files w) = (Inr (), fs')" and
    d: "\<forall>d \<in> set (io_dirs ?self). is_dir fs' d" and
    l: "\<forall>q. lookup fs' q = lookup (files w) q \<or>
          (lookup (files w) q = None \<and> lookup fs' q = Some Dir \<and> (\<exists>d \<in> set (io_dirs ?self). prefix q d))"
    by blast
  let ?w' = "w\<lparr>files := fs'\<rparr>"
  have i1: "init file root_arg a b s w = (Inr ?self, ?w')"
    using assms(1) m by (simp add: init_def)
  have i2: "init file root_arg a b s ?w' = (Inr ?self, ?w')"
    using assms(1) mkdir_all_existing [OF d] by (simp add: init_def)
  have dirs: "io_dirs ?self =
             [r @ [''images'', ''mask''], r @ [''images'', ''target''],
              r @ [''images'', ''exemplar''], r @ [''recover_out'']]"
    by (simp add: io_dirs_def mk_service_sel)
  have keep: "\<forall>q nd. lookup (files w) q = Some nd \<longrightarrow> lookup (files ?w') q = Some nd"
  proof (intro allI impI)
    fix q nd assume "lookup (files w) q = Some nd"
    with l [rule_format, of q] show "lookup (files ?w') q = Some nd" by simp
  qed
  have new: "\<forall>q. lookup (files w) q = None \<and> lookup (files ?w') q \<noteq> None \<longrightarrow>
                lookup (files ?w') q = Some Dir \<and> (\<exists>d \<in> set (io_dirs ?self). prefix q d)"
  proof (intro allI impI)
    fix q assume "lookup (files w) q = None \<and> lookup (files ?w') q \<noteq> None"
    with l [rule_format, of q]
    show "lookup (files ?w') q = Some Dir \<and> (\<exists>d \<in> set (io_dirs ?self). prefix q d)"
      by (elim disjE conjE) simp_all
  qed
  have d': "\<forall>d \<in> set (io_dirs ?self). is_dir (files ?w') d" using d by simp
  have sp: "spawned ?w' = spawned w" by simp
  show ?thesis
    by (intro exI [of _ ?w'] conjI) (rule i1 dirs d' keep new sp i2)+
qed

theorem init_creates_staging_directories_witness:
  "root_of [''srv'', ''EXE-GAN'', ''service'', ''exegan_service.py''] None = Inr root0 \<and>
   list_all (\<lambda>d. list_all (\<lambda>q. \<not> is_file (files w_bare) q) (prefixes d)) (io_dirs svc0) \<and>
   init [''srv'', ''EXE-GAN'', ''service'', ''exegan_service.py''] None
     ''pre-train/psp_ffhq_encode.pt'' ''checkpoint/EXE_GAN_model.pt'' 256 w_bare = (Inr svc0, w_fresh) \<and>
   init [''srv'', ''EXE-GAN'', ''service'', ''exegan_service.py''] None
     ''pre-train/psp_ffhq_encode.pt'' ''checkpoint/EXE_GAN_model.pt'' 256 w_fresh = (Inr svc0, w_fresh)"
proof -
  let ?file = "[''srv'', ''EXE-GAN'', ''service'', ''exegan_service.py'']"
  let ?a = "''pre-train/psp_ffhq_encode.pt''"
  let ?b = "''checkpoint/EXE_GAN_model.pt''"
  have h1: "root_of ?file None = Inr root0" by code_simp
  have h2': "list_all (\<lambda>d. list_all (\<lambda>q. \<not> is_file (files w_bare) q) (prefixes d)) (io_dirs svc0)"
    by code_simp
  have h2: "\<forall>d \<in> set (io_dirs svc0). \<forall>q. prefix q d \<longrightarrow> \<not> is_file (files w_bare) q"
    using h2' in_set_prefixes unfolding list_all_iff by blast
  have i: "init ?file None ?a ?b 256 w_bare = (Inr svc0, w_fresh)"
    by code_simp
  from init_creates_staging_directories [OF h1 h2 [unfolded svc0_def]]
  obtain w' where 1: "init ?file None ?a ?b 256 w_bare = (Inr (mk_service root0 ?a ?b 256), w')"
    and 2: "init ?file None ?a ?b 256 w' = (Inr (mk_service root0 ?a ?b 256), w')"
    by blast
  from 1 i have "w' = w_fresh" by simp
  with 2 have "init ?file None ?a ?b 256 w_fresh = (Inr svc0, w_fresh)"
    by (simp add: svc0_def)
  with h1 h2' i show ?thesis by blast
qed

end
